theory Spec2Isabelle
  imports Main
begin

section \<open>Python strings\<close>

text \<open>
  A Python \<open>str\<close> is a sequence of Unicode code points. The log messages of
  \<open>main.py\<close> contain code points beyond Latin-1 (check marks, a cross mark), and
  \<open>str.strip()\<close> decides on code points, so a string is modelled as a list of code
  points. \<open>py\<close> turns an ASCII literal into such a list.
\<close>

type_synonym pystr = "nat list"

definition py :: "string \<Rightarrow> pystr" where
  "py s = map of_char s"

text \<open>
  The code points that \<open>str.strip()\<close> with no argument removes (those for which
  \<open>str.isspace\<close> holds): TAB..CR, FS..US, SPACE, NEL, NBSP, OGHAM SPACE MARK,
  EN QUAD..HAIR SPACE, LINE and PARAGRAPH SEPARATOR, NARROW NBSP, MEDIUM MATHEMATICAL
  SPACE, IDEOGRAPHIC SPACE.
\<close>

definition isspace :: "nat \<Rightarrow> bool" where
  "isspace c \<longleftrightarrow>
     (9 \<le> c \<and> c \<le> 13) \<or> (28 \<le> c \<and> c \<le> 32) \<or> c = 133 \<or> c = 160 \<or> c = 5760 \<or>
     (8192 \<le> c \<and> c \<le> 8202) \<or> c = 8232 \<or> c = 8233 \<or> c = 8239 \<or> c = 8287 \<or> c = 12288"

definition strip :: "pystr \<Rightarrow> pystr" where
  "strip s = rev (dropWhile isspace (rev (dropWhile isspace s)))"

text \<open>\<open>str(n)\<close> for a non-negative integer, as the f-strings format page numbers and counts.\<close>

fun str_nat :: "nat \<Rightarrow> pystr" where
  "str_nat n = (if n < 10 then [48 + n] else str_nat (n div 10) @ [48 + n mod 10])"

declare str_nat.simps [simp del]

text \<open>\<open>sep.join(xs)\<close>.\<close>

fun join :: "pystr \<Rightarrow> pystr list \<Rightarrow> pystr" where
  "join sep [] = []"
| "join sep [x] = x"
| "join sep (x # y # ys) = x @ sep @ join sep (y # ys)"


text \<open>
  A \<open>pathlib.Path\<close> is the list of its components: \<open>p / c\<close> appends one, \<open>p.parent\<close>
  drops the last, \<open>p.name\<close> is the last (the empty string for the empty path).
\<close>

type_synonym path = "pystr list"

definition joinpath :: "path \<Rightarrow> pystr \<Rightarrow> path" where
  "joinpath p c = p @ [c]"

definition parent :: "path \<Rightarrow> path" where
  "parent p = butlast p"

definition path_name :: "path \<Rightarrow> pystr" where
  "path_name p = (if p = [] then [] else last p)"

text \<open>
  \<open>Path.stem\<close>: the name up to its last dot, when that dot is neither the first nor the
  last character of the name; \<open>rfind\<close> is \<open>str.rfind\<close> of one character.
\<close>

fun rfind :: "nat \<Rightarrow> pystr \<Rightarrow> nat option" where
  "rfind c [] = None"
| "rfind c (x # xs) =
     (case rfind c xs of Some i \<Rightarrow> Some (Suc i) | None \<Rightarrow> if x = c then Some 0 else None)"

definition stem :: "pystr \<Rightarrow> pystr" where
  "stem nm =
     (case rfind 46 nm of
        None \<Rightarrow> nm
      | Some i \<Rightarrow> if 0 < i \<and> i < length nm - 1 then take i nm else nm)"

definition endswith :: "pystr \<Rightarrow> pystr \<Rightarrow> bool" where
  "endswith s suf \<longleftrightarrow> length suf \<le> length s \<and> drop (length s - length suf) s = suf"


section \<open>The collaborators: pages, documents, the OCR reader, the file system\<close>

text \<open>
  An exception is modelled by its message (\<open>str(e)\<close>, which is all the code reads of it).
  A rendered page image is opaque to the code, which only hands it to the reader.
\<close>

type_synonym fault = pystr
type_synonym image = nat

text \<open>
  A page of an opened PDF: what \<open>page.extract_text()\<close> does (raise, or return \<open>None\<close> or a
  string) and what \<open>page.to_image(resolution=r).original\<close> does (raise, or give an image).
  The conversion \<open>np.array(pil_image)\<close> is folded into the image.
\<close>

record page =
  extract_text :: "fault + pystr option"
  to_image :: "nat \<Rightarrow> fault + image"

text \<open>
  A file of the input directory: its file name, and what \<open>pdfplumber.open(path)\<close>
  followed by \<open>pdf.pages\<close> does with it (raise, or give the list of pages).
\<close>

record pdf_file =
  name :: pystr
  pdf_open :: "fault + page list"

text \<open>
  The environment of a run: the global \<open>reader\<close> (\<open>reader.readtext(img, detail=0)\<close> raises
  or returns the list of recognised fragments), whether \<open>import easyocr\<close> succeeds,
  whether constructing the reader raises, the clock reading as \<open>strftime\<close> formats it,
  \<open>str(p.resolve())\<close>, and which writes and moves the file system refuses.
\<close>

record env =
  readtext :: "image \<Rightarrow> fault + pystr list"
  easyocr_importable :: bool
  reader_fault :: "fault option"
  now :: pystr
  resolve :: "path \<Rightarrow> pystr"
  write_fault :: "path \<Rightarrow> fault option"
  move_fault :: "path \<Rightarrow> path \<Rightarrow> fault option"

datatype level = INFO | WARNING | ERROR

text \<open>
  Every effect of the program is recorded, in order, in a trace: console output, log
  records, directory creation, and the calls into the PDF library, the OCR reader and the
  file system. \<open>ExtractText n\<close>, \<open>ToImage n\<close> and \<open>ReadText n\<close> are the calls made while the
  loop is at page number \<open>n\<close>.
\<close>

datatype event =
    Print pystr
  | Log level pystr
  | Mkdir path
  | OpenLogFile path
  | CreateReader
  | PdfOpen pystr
  | ExtractText nat
  | ToImage nat
  | ReadText nat
  | WriteText path pystr
  | Move path path

text \<open>
  The world: the trace so far and the file system (the directories that exist, the
  files of the input directory in the order in which the directory lists them, the text
  files written and the files moved, by path).
\<close>

record world =
  trace :: "event list"
  dirs :: "path list"
  input_files :: "pdf_file list"
  text_files :: "path \<rightharpoonup> pystr"
  moved_files :: "path \<rightharpoonup> pdf_file"

definition emit :: "event \<Rightarrow> world \<Rightarrow> world" where
  "emit e w = w\<lparr>trace := trace w @ [e]\<rparr>"

definition logger_info :: "pystr \<Rightarrow> world \<Rightarrow> world" where
  "logger_info msg w = emit (Log INFO msg) w"

definition logger_warning :: "pystr \<Rightarrow> world \<Rightarrow> world" where
  "logger_warning msg w = emit (Log WARNING msg) w"

definition logger_error :: "pystr \<Rightarrow> world \<Rightarrow> world" where
  "logger_error msg w = emit (Log ERROR msg) w"


section \<open>\<open>extract_text_from_pdf\<close>\<close>

text \<open>The two page markers of the f-strings at lines 97 and 111.\<close>

definition direct_block :: "nat \<Rightarrow> pystr \<Rightarrow> pystr" where
  "direct_block page_num text = [10] @ py ''--- Page '' @ str_nat page_num @ py '' ---'' @ [10] @ text"

definition ocr_block :: "nat \<Rightarrow> pystr \<Rightarrow> pystr" where
  "ocr_block page_num ocr_text =
     [10] @ py ''--- Page '' @ str_nat page_num @ py '' (OCR) ---'' @ [10] @ ocr_text"

text \<open>
  Lines 100 to 115: the inner \<open>try\<close>. Rendering and recognition raise into the same
  handler, which logs a warning and lets the loop go on with \<open>full_text\<close> as it was.
\<close>

definition ocr_fallback :: "env \<Rightarrow> world \<Rightarrow> pystr \<Rightarrow> nat \<Rightarrow> page \<Rightarrow> world \<times> pystr" where
  "ocr_fallback ev w full_text page_num pg =
     (let w1 = emit (ToImage page_num) w in
      case to_image pg 150 of
        Inl e \<Rightarrow>
          (logger_warning (py ''Could not OCR page '' @ str_nat page_num @ py '': '' @ e) w1, full_text)
      | Inr img_array \<Rightarrow>
          (let w2 = emit (ReadText page_num) w1 in
           case readtext ev img_array of
             Inl e \<Rightarrow>
               (logger_warning (py ''Could not OCR page '' @ str_nat page_num @ py '': '' @ e) w2,
                full_text)
           | Inr results \<Rightarrow>
               if results \<noteq> []
               then (w2, full_text @ ocr_block page_num (join [10] results))
               else (logger_warning (py ''No text found on page '' @ str_nat page_num) w2, full_text)))"

text \<open>
  Lines 94 to 115: the body of the loop over the pages. \<open>page.extract_text()\<close> is outside
  the inner \<open>try\<close>: when it raises, the exception leaves the loop (\<open>Inl\<close>).
  \<open>text and text.strip()\<close> is true when \<open>text\<close> is a string that is not empty and does not
  strip to the empty string.
\<close>

definition page_body :: "env \<Rightarrow> world \<Rightarrow> pystr \<Rightarrow> nat \<times> page \<Rightarrow> world \<times> (fault + pystr)" where
  "page_body ev w full_text np =
     (case np of (page_num, pg) \<Rightarrow>
        (let w1 = emit (ExtractText page_num) w in
         case extract_text pg of
           Inl e \<Rightarrow> (w1, Inl e)
         | Inr None \<Rightarrow>
             (case ocr_fallback ev w1 full_text page_num pg of (w2, ft) \<Rightarrow> (w2, Inr ft))
         | Inr (Some text) \<Rightarrow>
             if text \<noteq> [] \<and> strip text \<noteq> []
             then (w1, Inr (full_text @ direct_block page_num text))
             else (case ocr_fallback ev w1 full_text page_num pg of (w2, ft) \<Rightarrow> (w2, Inr ft))))"

text \<open>Line 93: the loop over \<open>enumerate(pdf.pages, 1)\<close>.\<close>

fun pages_loop :: "env \<Rightarrow> world \<Rightarrow> pystr \<Rightarrow> (nat \<times> page) list \<Rightarrow> world \<times> (fault + pystr)" where
  "pages_loop ev w full_text [] = (w, Inr full_text)"
| "pages_loop ev w full_text (np # rest) =
     (case page_body ev w full_text np of
        (w1, Inl e) \<Rightarrow> (w1, Inl e)
      | (w1, Inr full_text1) \<Rightarrow> pages_loop ev w1 full_text1 rest)"

text \<open>
  Lines 87 to 120. Whatever is raised by opening the file, by building the page list or
  by \<open>extract_text\<close> is caught by the outer handler: an error is logged and the result is
  the empty string.
\<close>

definition extract_text_from_pdf :: "env \<Rightarrow> pdf_file \<Rightarrow> world \<Rightarrow> world \<times> pystr" where
  "extract_text_from_pdf ev pdf_path w =
     (let w1 = emit (PdfOpen (name pdf_path)) w in
      case pdf_open pdf_path of
        Inl e \<Rightarrow>
          (logger_error (py ''Error processing '' @ name pdf_path @ py '': '' @ e) w1, [])
      | Inr pages \<Rightarrow>
          (case pages_loop ev w1 [] (enumerate 1 pages) of
             (w2, Inl e) \<Rightarrow>
               (logger_error (py ''Error processing '' @ name pdf_path @ py '': '' @ e) w2, [])
           | (w2, Inr full_text) \<Rightarrow> (w2, strip full_text)))"


section \<open>The batch: \<open>process_pdfs\<close>\<close>

text \<open>\<open>input_dir.glob("*.pdf")\<close>: the files of the input directory whose name ends in \<open>.pdf\<close>.\<close>

definition glob_pdf :: "world \<Rightarrow> pdf_file list" where
  "glob_pdf w = filter (\<lambda>f. endswith (name f) (py ''.pdf'')) (input_files w)"

text \<open>
  Lines 130 to 142: the body of the loop over the files. \<open>write_text\<close> and \<open>shutil.move\<close>
  are not inside any \<open>try\<close>: when one raises, the exception leaves \<open>process_pdfs\<close>.
  A refusal is the one that comes before anything is done (the file cannot be opened for
  writing, the original cannot be renamed), so the files are then as they were; a write
  or a move that breaks off half way is not modelled.
\<close>

definition process_one ::
  "env \<Rightarrow> path \<Rightarrow> path \<Rightarrow> path \<Rightarrow> nat \<Rightarrow> world \<Rightarrow> nat \<times> pdf_file \<Rightarrow> world \<times> (fault + unit)" where
  "process_one ev input_dir original_dir processed_dir n_files w ip =
     (case ip of (i, pdf_path) \<Rightarrow>
        (let w1 = logger_info (py ''['' @ str_nat i @ py ''/'' @ str_nat n_files @ py ''] Processing: ''
                               @ name pdf_path) w
         in case extract_text_from_pdf ev pdf_path w1 of (w2, text) \<Rightarrow>
           (let output_file = joinpath processed_dir (stem (name pdf_path) @ py ''.txt'');
                w3 = emit (WriteText output_file text) w2
            in case write_fault ev output_file of
                 Some e \<Rightarrow> (w3, Inl e)
               | None \<Rightarrow>
                   (let w4 = w3\<lparr>text_files := (text_files w3)(output_file \<mapsto> text)\<rparr>;
                        src = joinpath input_dir (name pdf_path);
                        dst = joinpath original_dir (name pdf_path);
                        w5 = emit (Move src dst) w4
                    in case move_fault ev src dst of
                         Some e \<Rightarrow> (w5, Inl e)
                       | None \<Rightarrow>
                           (let w6 = w5\<lparr>input_files := filter (\<lambda>f. name f \<noteq> name pdf_path) (input_files w5),
                                       moved_files := (moved_files w5)(dst \<mapsto> pdf_path)\<rparr>
                            in (logger_info (py ''  '' @ [10003] @ py '' Saved: '' @ path_name output_file) w6,
                                Inr ()))))))"

text \<open>Line 129: the loop over \<open>enumerate(pdf_files, 1)\<close>.\<close>

fun process_loop ::
  "env \<Rightarrow> path \<Rightarrow> path \<Rightarrow> path \<Rightarrow> nat \<Rightarrow> world \<Rightarrow> (nat \<times> pdf_file) list \<Rightarrow> world \<times> (fault + unit)" where
  "process_loop ev input_dir original_dir processed_dir n_files w [] = (w, Inr ())"
| "process_loop ev input_dir original_dir processed_dir n_files w (ip # rest) =
     (case process_one ev input_dir original_dir processed_dir n_files w ip of
        (w1, Inl e) \<Rightarrow> (w1, Inl e)
      | (w1, Inr u) \<Rightarrow> process_loop ev input_dir original_dir processed_dir n_files w1 rest)"

definition process_pdfs :: "env \<Rightarrow> path \<Rightarrow> path \<Rightarrow> path \<Rightarrow> world \<Rightarrow> world \<times> (fault + nat)" where
  "process_pdfs ev input_dir original_dir processed_dir w =
     (let pdf_files = glob_pdf w;
          w1 = logger_info (py ''Found '' @ str_nat (length pdf_files) @ py '' PDF file(s). Starting OCR...'') w
      in case process_loop ev input_dir original_dir processed_dir (length pdf_files) w1
                (enumerate 1 pdf_files) of
           (w2, Inl e) \<Rightarrow> (w2, Inl e)
         | (w2, Inr u) \<Rightarrow> (w2, Inr (length pdf_files)))"


section \<open>Folders, logging, the dependency check and \<open>main\<close>\<close>

text \<open>
  \<open>p.mkdir(exist_ok=True)\<close>, and the same with \<open>parents=True\<close>, which first creates every
  missing ancestor of the path, the shortest one first.
\<close>

definition add_dir :: "path \<Rightarrow> path list \<Rightarrow> path list" where
  "add_dir p ds = (if p \<in> set ds then ds else ds @ [p])"

definition mkdir :: "path \<Rightarrow> world \<Rightarrow> world" where
  "mkdir p w = (emit (Mkdir p) w)\<lparr>dirs := add_dir p (dirs w)\<rparr>"

definition parents_of :: "path \<Rightarrow> path list" where
  "parents_of p = map (\<lambda>k. take k p) [1..<length p]"

definition mkdir_parents :: "path \<Rightarrow> world \<Rightarrow> world" where
  "mkdir_parents p w =
     (emit (Mkdir p) w)\<lparr>dirs := add_dir p (foldl (\<lambda>ds q. add_dir q ds) (dirs w) (parents_of p))\<rparr>"

definition setup_folders :: "world \<Rightarrow> path \<times> path \<times> world" where
  "setup_folders w =
     (let input_dir = [py ''input''];
          output_dir = [py ''output''];
          w1 = mkdir input_dir w;
          w2 = mkdir output_dir w1
      in (input_dir, output_dir, w2))"

definition get_timestamp_folder :: "env \<Rightarrow> path \<Rightarrow> world \<Rightarrow> path \<times> path \<times> world" where
  "get_timestamp_folder ev output_dir w =
     (let timestamp = now ev;
          timestamp_dir = joinpath output_dir timestamp;
          original_dir = joinpath timestamp_dir (py ''original'');
          processed_dir = joinpath timestamp_dir (py ''processed'');
          w1 = mkdir_parents original_dir w;
          w2 = mkdir_parents processed_dir w1
      in (original_dir, processed_dir, w2))"

text \<open>\<open>setup_logging\<close>: the file handler opens \<open>ocr_log.txt\<close> in the timestamp directory.\<close>

definition setup_logging :: "path \<Rightarrow> world \<Rightarrow> world" where
  "setup_logging timestamp_dir w = emit (OpenLogFile (joinpath timestamp_dir (py ''ocr_log.txt''))) w"

text \<open>Lines 76 to 84.\<close>

definition check_dependencies :: "env \<Rightarrow> world \<Rightarrow> world \<times> bool" where
  "check_dependencies ev w =
     (if easyocr_importable ev
      then (logger_info ([10003] @ py '' EasyOCR available (pure Python - no system dependencies needed)'') w,
            True)
      else (logger_error ([10060] @ py '' EasyOCR not found. Install with: uv sync'') w, False))"

definition abort_message :: pystr where
  "abort_message = [10, 9888, 65039] @ py ''  Process aborted due to missing dependencies.''"

text \<open>Lines 147 to 175. \<open>main\<close> returns \<open>None\<close> on every path; an exception of the batch leaves it.\<close>

definition main :: "env \<Rightarrow> world \<Rightarrow> world \<times> (fault + unit)" where
  "main ev w =
     (case setup_folders w of (input_dir, output_dir, w1) \<Rightarrow>
        if glob_pdf w1 = []
        then (emit (Print (py ''No PDF files found in /input folder.'')) w1, Inr ())
        else
          (case get_timestamp_folder ev output_dir w1 of (original_dir, processed_dir, w2) \<Rightarrow>
             (let timestamp_dir = parent original_dir;
                  w3 = setup_logging timestamp_dir w2;
                  w4 = logger_info (py ''PDF OCR - Processing PDFs from /input folder'') w3;
                  w5 = logger_info (py ''Input folder:  '' @ resolve ev input_dir) w4;
                  w6 = logger_info (py ''Output folder: '' @ resolve ev timestamp_dir) w5
              in case check_dependencies ev w6 of (w7, ok) \<Rightarrow>
                   if \<not> ok
                   then (logger_info abort_message w7, Inr ())
                   else
                     (case process_pdfs ev input_dir original_dir processed_dir w7 of
                        (w8, Inl e) \<Rightarrow> (w8, Inl e)
                      | (w8, Inr count) \<Rightarrow>
                          (let w9 = logger_info ([10003] @ py '' Completed! '' @ str_nat count
                                                 @ py '' PDF(s) processed.'') w8;
                               w10 = logger_info (py ''Results saved to: '' @ path_name timestamp_dir
                                                  @ py ''/'') w9
                           in (w10, Inr ()))))))"

text \<open>
  Running the script: lines 13 and 20 execute when the module is loaded, before line 179
  calls \<open>main\<close>. A failing \<open>import easyocr\<close> raises \<open>ImportError\<close> there, and so does a
  failing construction of the reader with its own exception.
\<close>

definition run_script :: "env \<Rightarrow> world \<Rightarrow> world \<times> (fault + unit)" where
  "run_script ev w =
     (if \<not> easyocr_importable ev
      then (w, Inl (py ''No module named '' @ [39] @ py ''easyocr'' @ [39]))
      else
        (let w1 = emit CreateReader w
         in case reader_fault ev of
              Some e \<Rightarrow> (w1, Inl e)
            | None \<Rightarrow> main ev w1))"


section \<open>Notions the properties are stated with\<close>

text \<open>
  The test of line 96 on a page whose direct extraction returned: the page has direct
  text when the string is not empty after trimming, and needs OCR otherwise (\<open>None\<close>,
  the empty string, or white space only). A page whose \<open>extract_text\<close> raises is neither.
\<close>

definition has_direct_text :: "page \<Rightarrow> bool" where
  "has_direct_text pg =
     (case extract_text pg of Inl e \<Rightarrow> False | Inr None \<Rightarrow> False | Inr (Some t) \<Rightarrow> strip t \<noteq> [])"

definition needs_ocr :: "page \<Rightarrow> bool" where
  "needs_ocr pg =
     (case extract_text pg of Inl e \<Rightarrow> False | Inr None \<Rightarrow> True | Inr (Some t) \<Rightarrow> strip t = [])"

definition renders :: "page \<Rightarrow> bool" where
  "renders pg = (case to_image pg 150 of Inl e \<Rightarrow> False | Inr img \<Rightarrow> True)"

text \<open>What rendering the page at 150 dpi and then reading the image gives.\<close>

definition ocr_outcome :: "env \<Rightarrow> page \<Rightarrow> fault + pystr list" where
  "ocr_outcome ev pg = (case to_image pg 150 of Inl e \<Rightarrow> Inl e | Inr img \<Rightarrow> readtext ev img)"

text \<open>
  A document fails when opening it raises or when \<open>extract_text\<close> raises on one of its
  pages; the failure is the first exception met in page order.
\<close>

fun first_fault :: "page list \<Rightarrow> fault option" where
  "first_fault [] = None"
| "first_fault (pg # pgs) = (case extract_text pg of Inl e \<Rightarrow> Some e | Inr x \<Rightarrow> first_fault pgs)"

definition document_failure :: "pdf_file \<Rightarrow> fault option" where
  "document_failure d = (case pdf_open d of Inl e \<Rightarrow> Some e | Inr pages \<Rightarrow> first_fault pages)"

text \<open>
  The specification's reading of the document text: every page resolves to a block,
  a marker with the page number followed by the direct text, or a marker with the OCR
  annotation followed by the fragments joined by newlines; a page that resolves to no
  text has no block. The document text is the trimmed concatenation of the blocks in
  page order.
\<close>

definition spec_page_block :: "env \<Rightarrow> nat \<times> page \<Rightarrow> pystr" where
  "spec_page_block ev np =
     (case np of (page_num, pg) \<Rightarrow>
        if has_direct_text pg
        then (case extract_text pg of Inr (Some t) \<Rightarrow> direct_block page_num t | _ \<Rightarrow> [])
        else (case ocr_outcome ev pg of
                Inl e \<Rightarrow> []
              | Inr results \<Rightarrow> if results = [] then [] else ocr_block page_num (join [10] results)))"

definition spec_document_text :: "env \<Rightarrow> page list \<Rightarrow> pystr" where
  "spec_document_text ev pages = strip (concat (map (spec_page_block ev) (enumerate 1 pages)))"

text \<open>The file system accepts the text file of a document and the move of its original.\<close>

definition fs_accepts :: "env \<Rightarrow> path \<Rightarrow> path \<Rightarrow> path \<Rightarrow> pdf_file \<Rightarrow> bool" where
  "fs_accepts ev input_dir original_dir processed_dir f \<longleftrightarrow>
     write_fault ev (joinpath processed_dir (stem (name f) @ py ''.txt'')) = None \<and>
     move_fault ev (joinpath input_dir (name f)) (joinpath original_dir (name f)) = None"

text \<open>The messages of lines 83, 113, 115, 119, 130 and 142, and of lines 155 and 174.\<close>

definition not_found_message :: pystr where
  "not_found_message = [10060] @ py '' EasyOCR not found. Install with: uv sync''"

definition no_text_message :: "nat \<Rightarrow> pystr" where
  "no_text_message page_num = py ''No text found on page '' @ str_nat page_num"

definition could_not_ocr_message :: "nat \<Rightarrow> fault \<Rightarrow> pystr" where
  "could_not_ocr_message page_num e = py ''Could not OCR page '' @ str_nat page_num @ py '': '' @ e"

definition error_processing_message :: "pystr \<Rightarrow> fault \<Rightarrow> pystr" where
  "error_processing_message nm e = py ''Error processing '' @ nm @ py '': '' @ e"

definition processing_message :: "nat \<Rightarrow> nat \<Rightarrow> pystr \<Rightarrow> pystr" where
  "processing_message i n_files nm =
     py ''['' @ str_nat i @ py ''/'' @ str_nat n_files @ py ''] Processing: '' @ nm"

definition saved_message :: "pystr \<Rightarrow> pystr" where
  "saved_message nm = py ''  '' @ [10003] @ py '' Saved: '' @ nm"

definition no_pdf_message :: pystr where
  "no_pdf_message = py ''No PDF files found in /input folder.''"

definition completed_message :: "nat \<Rightarrow> pystr" where
  "completed_message count = [10003] @ py '' Completed! '' @ str_nat count @ py '' PDF(s) processed.''"

text \<open>The two records that only the abort branch of \<open>main\<close> (lines 168 to 170) can log.\<close>

definition abort_records :: "event set" where
  "abort_records = {Log ERROR not_found_message, Log INFO abort_message}"


section \<open>Concrete inputs\<close>

definition ex_env :: env where
  "ex_env =
     \<lparr>readtext = (\<lambda>img. if img = 7 then Inr [py ''scanned'', py ''text''] else Inr []),
      easyocr_importable = True,
      reader_fault = None,
      now = py ''20240101_120000'',
      resolve = (\<lambda>p. py ''/work/'' @ join [47] p),
      write_fault = (\<lambda>p. None),
      move_fault = (\<lambda>src dst. None)\<rparr>"

definition ex_page_direct :: page where
  "ex_page_direct = \<lparr>extract_text = Inr (Some (py ''Hello'')), to_image = (\<lambda>r. Inr 1)\<rparr>"

definition ex_page_scan :: page where
  "ex_page_scan = \<lparr>extract_text = Inr (Some (py '' '')), to_image = (\<lambda>r. Inr 7)\<rparr>"

definition ex_page_blank :: page where
  "ex_page_blank = \<lparr>extract_text = Inr None, to_image = (\<lambda>r. Inr 2)\<rparr>"

definition ex_page_norender :: page where
  "ex_page_norender = \<lparr>extract_text = Inr (Some []), to_image = (\<lambda>r. Inl (py ''render failed''))\<rparr>"

definition ex_page_broken :: page where
  "ex_page_broken = \<lparr>extract_text = Inl (py ''bad stream''), to_image = (\<lambda>r. Inr 3)\<rparr>"

definition ex_doc :: pdf_file where
  "ex_doc = \<lparr>name = py ''a.pdf'', pdf_open = Inr [ex_page_direct, ex_page_scan, ex_page_blank]\<rparr>"

definition ex_doc_norender :: pdf_file where
  "ex_doc_norender = \<lparr>name = py ''n.pdf'', pdf_open = Inr [ex_page_norender]\<rparr>"

definition ex_doc_broken :: pdf_file where
  "ex_doc_broken = \<lparr>name = py ''c.pdf'', pdf_open = Inr [ex_page_broken, ex_page_direct]\<rparr>"

definition ex_doc_corrupt :: pdf_file where
  "ex_doc_corrupt = \<lparr>name = py ''b.pdf'', pdf_open = Inl (py ''not a PDF'')\<rparr>"

definition ex_notes :: pdf_file where
  "ex_notes = \<lparr>name = py ''notes.txt'', pdf_open = Inl (py ''not a PDF'')\<rparr>"

definition ex_world :: world where
  "ex_world =
     \<lparr>trace = [], dirs = [[py ''input'']], input_files = [ex_doc_corrupt, ex_notes, ex_doc],
      text_files = Map.empty, moved_files = Map.empty\<rparr>"

definition ex_world_empty :: world where
  "ex_world_empty =
     \<lparr>trace = [], dirs = [[py ''input'']], input_files = [ex_notes], text_files = Map.empty,
      moved_files = Map.empty\<rparr>"

text \<open>An environment in which the directory for the text files is read-only.\<close>

definition ex_env_readonly :: env where
  "ex_env_readonly = ex_env\<lparr>write_fault := (\<lambda>p. Some (py ''Permission denied''))\<rparr>"

text \<open>An environment in which \<open>import easyocr\<close> fails.\<close>

definition ex_env_missing :: env where
  "ex_env_missing = ex_env\<lparr>easyocr_importable := False\<rparr>"

text \<open>An environment in which files cannot be moved.\<close>

definition ex_env_nomove :: env where
  "ex_env_nomove = ex_env\<lparr>move_fault := (\<lambda>src dst. Some (py ''Operation not permitted''))\<rparr>"

definition ex_original_dir :: path where
  "ex_original_dir = [py ''output'', py ''20240101_120000'', py ''original'']"

definition ex_processed_dir :: path where
  "ex_processed_dir = [py ''output'', py ''20240101_120000'', py ''processed'']"


section \<open>Lemmas on the page loop\<close>


lemma strip_Nil [simp]: "strip [] = []"
  by (simp add: strip_def)

lemmas log_defs = emit_def logger_info_def logger_warning_def logger_error_def

lemma count_ocr_fallback:
  "count_list (trace (fst (ocr_fallback ev w ft n pg))) (ReadText m) =
     count_list (trace w) (ReadText m) + (if n = m \<and> renders pg then 1 else 0)"
  "count_list (trace (fst (ocr_fallback ev w ft n pg))) (ToImage m) =
     count_list (trace w) (ToImage m) + (if n = m then 1 else 0)"
  by (auto simp: ocr_fallback_def renders_def Let_def log_defs split: sum.splits)

lemma count_page_body:
  "count_list (trace (fst (page_body ev w ft (n, pg)))) (ReadText m) =
     count_list (trace w) (ReadText m) + (if n = m \<and> needs_ocr pg \<and> renders pg then 1 else 0)"
  "count_list (trace (fst (page_body ev w ft (n, pg)))) (ToImage m) =
     count_list (trace w) (ToImage m) + (if n = m \<and> needs_ocr pg then 1 else 0)"
  using count_ocr_fallback[of ev "emit (ExtractText n) w" ft n pg m]
  by (auto simp: page_body_def needs_ocr_def Let_def emit_def split: sum.splits option.splits prod.splits)

lemma snd_ocr_fallback:
  "snd (ocr_fallback ev w ft n pg) =
     ft @ (case ocr_outcome ev pg of Inl e \<Rightarrow> []
           | Inr rs \<Rightarrow> if rs = [] then [] else ocr_block n (join [10] rs))"
  by (auto simp: ocr_fallback_def ocr_outcome_def Let_def split: sum.splits)

lemma snd_page_body:
  assumes "extract_text pg = Inr x"
  shows "snd (page_body ev w ft (n, pg)) = Inr (ft @ spec_page_block ev (n, pg))"
  using assms snd_ocr_fallback[of ev "emit (ExtractText n) w" ft n pg]
  by (auto simp: page_body_def spec_page_block_def has_direct_text_def Let_def
      split: option.splits prod.splits sum.splits)

lemma snd_page_body_fault:
  assumes "extract_text pg = Inl e"
  shows "snd (page_body ev w ft (n, pg)) = Inl e"
  using assms by (simp add: page_body_def Let_def)

lemma snd_pages_loop_ok:
  assumes "first_fault (map snd nps) = None"
  shows "snd (pages_loop ev w ft nps) = Inr (ft @ concat (map (spec_page_block ev) nps))"
  using assms
proof (induction nps arbitrary: w ft)
  case Nil
  then show ?case by simp
next
  case (Cons np rest)
  obtain n pg where np: "np = (n, pg)" by (cases np)
  from Cons.prems np obtain x where x: "extract_text pg = Inr x" and rest: "first_fault (map snd rest) = None"
    by (auto split: sum.splits)
  obtain w1 r where pb: "page_body ev w ft (n, pg) = (w1, r)" by (cases "page_body ev w ft (n, pg)")
  have r: "r = Inr (ft @ spec_page_block ev (n, pg))"
    using snd_page_body[OF x, of ev w ft n] pb by simp
  show ?case using pb r np Cons.IH[OF rest, of w1 "ft @ spec_page_block ev (n, pg)"] by simp
qed

lemma snd_pages_loop_fault:
  assumes "first_fault (map snd nps) = Some e"
  shows "snd (pages_loop ev w ft nps) = Inl e"
  using assms
proof (induction nps arbitrary: w ft)
  case Nil
  then show ?case by simp
next
  case (Cons np rest)
  obtain n pg where np: "np = (n, pg)" by (cases np)
  obtain w1 r where pb: "page_body ev w ft (n, pg) = (w1, r)" by (cases "page_body ev w ft (n, pg)")
  show ?case
  proof (cases "extract_text pg")
    case (Inl e')
    then have "e' = e" using Cons.prems np by simp
    then have "r = Inl e" using snd_page_body_fault[OF Inl, of ev w ft n] pb by simp
    then show ?thesis using pb np by simp
  next
    case (Inr x)
    then have rest: "first_fault (map snd rest) = Some e" using Cons.prems np by simp
    have "r = Inr (ft @ spec_page_block ev (n, pg))"
      using snd_page_body[OF Inr, of ev w ft n] pb by simp
    then show ?thesis using pb np Cons.IH[OF rest, of w1 "ft @ spec_page_block ev (n, pg)"] by simp
  qed
qed

text \<open>The extraction functions change nothing of the world but the trace, which they extend.\<close>

lemma ocr_fallback_frame:
  "\<exists>evs. fst (ocr_fallback ev w ft n pg) = w\<lparr>trace := trace w @ ToImage n # evs\<rparr>"
  by (auto simp: ocr_fallback_def Let_def log_defs split: sum.splits)

lemma page_body_frame:
  "\<exists>evs. fst (page_body ev w ft (n, pg)) = w\<lparr>trace := trace w @ ExtractText n # evs\<rparr>"
  using ocr_fallback_frame[of ev "emit (ExtractText n) w" ft n pg]
  by (auto simp: page_body_def Let_def log_defs split: sum.splits option.splits prod.splits)

lemma pages_loop_frame:
  "\<exists>evs. fst (pages_loop ev w ft nps) = w\<lparr>trace := trace w @ evs\<rparr>"
proof (induction nps arbitrary: w ft)
  case Nil
  show ?case by (rule exI[of _ "[]"]) simp
next
  case (Cons np rest)
  obtain n pg where np: "np = (n, pg)" by (cases np)
  obtain w1 r where pb: "page_body ev w ft (n, pg) = (w1, r)" by (cases "page_body ev w ft (n, pg)")
  obtain evs where w1: "w1 = w\<lparr>trace := trace w @ ExtractText n # evs\<rparr>"
    using page_body_frame[of ev w ft n pg] pb by auto
  show ?case
  proof (cases r)
    case (Inl e)
    then show ?thesis using pb np w1 by auto
  next
    case (Inr ft1)
    obtain evs1 where "fst (pages_loop ev w1 ft1 rest) = w1\<lparr>trace := trace w1 @ evs1\<rparr>"
      using Cons.IH[of w1 ft1] by auto
    then show ?thesis using pb np w1 Inr by auto
  qed
qed

lemma extract_frame:
  "\<exists>evs. fst (extract_text_from_pdf ev d w) = w\<lparr>trace := trace w @ PdfOpen (name d) # evs\<rparr>"
proof (cases "pdf_open d")
  case (Inl e)
  then show ?thesis
    by (intro exI[of _ "[Log ERROR (py ''Error processing '' @ name d @ py '': '' @ e)]"])
       (simp add: extract_text_from_pdf_def Let_def log_defs)
next
  case (Inr pages)
  obtain w2 r where pl: "pages_loop ev (emit (PdfOpen (name d)) w) [] (enumerate 1 pages) = (w2, r)"
    by (cases "pages_loop ev (emit (PdfOpen (name d)) w) [] (enumerate 1 pages)")
  obtain evs where "w2 = (emit (PdfOpen (name d)) w)\<lparr>trace := trace (emit (PdfOpen (name d)) w) @ evs\<rparr>"
    using pages_loop_frame[of ev "emit (PdfOpen (name d)) w" "[]" "enumerate 1 pages"] pl by auto
  then show ?thesis using Inr pl
    by (cases r) (auto simp: extract_text_from_pdf_def Let_def log_defs)
qed

lemma snd_extract_ok:
  assumes "document_failure d = None"
  shows "\<exists>pages. pdf_open d = Inr pages \<and> snd (extract_text_from_pdf ev d w) = spec_document_text ev pages"
proof -
  from assms obtain pages where p: "pdf_open d = Inr pages" "first_fault pages = None"
    by (auto simp: document_failure_def split: sum.splits)
  have "first_fault (map snd (enumerate 1 pages)) = None" using p by simp
  from snd_pages_loop_ok[OF this, of ev "emit (PdfOpen (name d)) w" "[]"] p
  show ?thesis
    by (auto simp: extract_text_from_pdf_def Let_def spec_document_text_def split: prod.splits sum.splits)
qed

lemma extract_fault:
  assumes "document_failure d = Some e"
  shows "\<exists>evs. extract_text_from_pdf ev d w =
           (w\<lparr>trace := trace w @ PdfOpen (name d) # evs @ [Log ERROR (error_processing_message (name d) e)]\<rparr>, [])"
proof (cases "pdf_open d")
  case (Inl e')
  then show ?thesis using assms
    by (intro exI[of _ "[]"])
       (simp add: extract_text_from_pdf_def document_failure_def Let_def log_defs error_processing_message_def)
next
  case (Inr pages)
  then have "first_fault (map snd (enumerate 1 pages)) = Some e" using assms
    by (simp add: document_failure_def)
  from snd_pages_loop_fault[OF this, of ev "emit (PdfOpen (name d)) w" "[]"]
  obtain w2 where pl: "pages_loop ev (emit (PdfOpen (name d)) w) [] (enumerate 1 pages) = (w2, Inl e)"
    by (cases "pages_loop ev (emit (PdfOpen (name d)) w) [] (enumerate 1 pages)") auto
  obtain evs where "w2 = (emit (PdfOpen (name d)) w)\<lparr>trace := trace (emit (PdfOpen (name d)) w) @ evs\<rparr>"
    using pages_loop_frame[of ev "emit (PdfOpen (name d)) w" "[]" "enumerate 1 pages"] pl by auto
  then show ?thesis using Inr pl
    by (auto simp: extract_text_from_pdf_def Let_def log_defs error_processing_message_def)
qed

text \<open>How often the renderer and the reader are called for a page number.\<close>

lemma count_pages_loop_other:
  assumes "\<forall>pg. (m, pg) \<in> set nps \<longrightarrow> \<not> needs_ocr pg"
  shows "count_list (trace (fst (pages_loop ev w ft nps))) (ReadText m) = count_list (trace w) (ReadText m)
     \<and> count_list (trace (fst (pages_loop ev w ft nps))) (ToImage m) = count_list (trace w) (ToImage m)"
  using assms
proof (induction nps arbitrary: w ft)
  case Nil
  then show ?case by simp
next
  case (Cons np rest)
  obtain n pg where np: "np = (n, pg)" by (cases np)
  obtain w1 r where pb: "page_body ev w ft (n, pg) = (w1, r)" by (cases "page_body ev w ft (n, pg)")
  have skip: "\<not> (n = m \<and> needs_ocr pg)" using Cons.prems np by auto
  have c1: "count_list (trace w1) (ReadText m) = count_list (trace w) (ReadText m)"
    using count_page_body(1)[of ev w ft n pg m] pb skip by auto
  have c2: "count_list (trace w1) (ToImage m) = count_list (trace w) (ToImage m)"
    using count_page_body(2)[of ev w ft n pg m] pb skip by auto
  have r: "\<forall>pg. (m, pg) \<in> set rest \<longrightarrow> \<not> needs_ocr pg"
    using Cons.prems by auto
  show ?case
  proof (cases r)
    case (Inl e)
    then show ?thesis using pb np c1 c2 by simp
  next
    case (Inr ft1)
    then show ?thesis using pb np c1 c2 Cons.IH[OF r, of w1 ft1] by simp
  qed
qed

lemma count_pages_loop_at:
  assumes "\<forall>np \<in> set pre. fst np \<noteq> m \<and> (\<exists>x. extract_text (snd np) = Inr x)"
    and "\<forall>np \<in> set post. fst np \<noteq> m"
    and "needs_ocr pg"
  shows "count_list (trace (fst (pages_loop ev w ft (pre @ (m, pg) # post)))) (ReadText m)
           = count_list (trace w) (ReadText m) + (if renders pg then 1 else 0)
     \<and> count_list (trace (fst (pages_loop ev w ft (pre @ (m, pg) # post)))) (ToImage m)
           = count_list (trace w) (ToImage m) + 1"
  using assms(1)
proof (induction pre arbitrary: w ft)
  case Nil
  obtain w1 r where pb: "page_body ev w ft (m, pg) = (w1, r)" by (cases "page_body ev w ft (m, pg)")
  have c1: "count_list (trace w1) (ReadText m) = count_list (trace w) (ReadText m) + (if renders pg then 1 else 0)"
    using count_page_body(1)[of ev w ft m pg m] pb assms(3) by auto
  have c2: "count_list (trace w1) (ToImage m) = count_list (trace w) (ToImage m) + 1"
    using count_page_body(2)[of ev w ft m pg m] pb assms(3) by auto
  have r: "\<forall>pg. (m, pg) \<in> set post \<longrightarrow> \<not> needs_ocr pg"
    using assms(2) by auto
  show ?case
  proof (cases r)
    case (Inl e)
    then show ?thesis using pb c1 c2 by simp
  next
    case (Inr ft1)
    then show ?thesis using pb c1 c2 count_pages_loop_other[OF r, of ev w1 ft1] by simp
  qed
next
  case (Cons np pre)
  obtain n p where np: "np = (n, p)" by (cases np)
  from Cons.prems np obtain x where x: "n \<noteq> m" "extract_text p = Inr x" by auto
  obtain w1 r where pb: "page_body ev w ft (n, p) = (w1, r)" by (cases "page_body ev w ft (n, p)")
  have c1: "count_list (trace w1) (ReadText m) = count_list (trace w) (ReadText m)"
    using count_page_body(1)[of ev w ft n p m] pb x by auto
  have c2: "count_list (trace w1) (ToImage m) = count_list (trace w) (ToImage m)"
    using count_page_body(2)[of ev w ft n p m] pb x by auto
  obtain ft1 where r: "r = Inr ft1"
    using pb x by (auto simp: page_body_def Let_def split: option.splits prod.splits if_splits)
  have pre: "\<forall>np \<in> set pre. fst np \<noteq> m \<and> (\<exists>x. extract_text (snd np) = Inr x)"
    using Cons.prems by auto
  show ?case using pb np r c1 c2 Cons.IH[OF pre, of w1 ft1] by simp
qed

lemma enumerate_split:
  assumes "i < length xs"
  shows "enumerate k xs = enumerate k (take i xs) @ (k + i, xs ! i) # enumerate (Suc (k + i)) (drop (Suc i) xs)"
proof -
  have "xs = take i xs @ xs ! i # drop (Suc i) xs" using assms by (simp add: id_take_nth_drop)
  then have "enumerate k xs = enumerate k (take i xs @ xs ! i # drop (Suc i) xs)" by simp
  also have "\<dots> = enumerate k (take i xs) @ enumerate (k + length (take i xs)) (xs ! i # drop (Suc i) xs)"
    by (rule enumerate_append_eq)
  finally show ?thesis using assms by (simp add: min_def)
qed

lemma count_extract:
  "count_list (trace (fst (extract_text_from_pdf ev d w))) (ReadText m) =
     (case pdf_open d of Inl e \<Rightarrow> count_list (trace w) (ReadText m)
      | Inr pages \<Rightarrow> count_list (trace (fst (pages_loop ev (emit (PdfOpen (name d)) w) [] (enumerate 1 pages)))) (ReadText m))"
  "count_list (trace (fst (extract_text_from_pdf ev d w))) (ToImage m) =
     (case pdf_open d of Inl e \<Rightarrow> count_list (trace w) (ToImage m)
      | Inr pages \<Rightarrow> count_list (trace (fst (pages_loop ev (emit (PdfOpen (name d)) w) [] (enumerate 1 pages)))) (ToImage m))"
  by (auto simp: extract_text_from_pdf_def Let_def emit_def logger_error_def split: sum.splits prod.splits)



lemma needs_ocr_not_direct: "has_direct_text pg \<Longrightarrow> \<not> needs_ocr pg"
  by (auto simp: has_direct_text_def needs_ocr_def split: sum.splits option.splits)

lemma count_extract_other:
  assumes "pdf_open d = Inr pages" and "i < length pages" and "\<not> needs_ocr (pages ! i)"
  shows "count_list (trace (fst (extract_text_from_pdf ev d w))) (ReadText (Suc i)) = count_list (trace w) (ReadText (Suc i))
     \<and> count_list (trace (fst (extract_text_from_pdf ev d w))) (ToImage (Suc i)) = count_list (trace w) (ToImage (Suc i))"
proof -
  have "\<forall>pg. (Suc i, pg) \<in> set (enumerate 1 pages) \<longrightarrow> \<not> needs_ocr pg"
    using assms(2,3) by (auto simp: in_set_enumerate_eq)
  from count_pages_loop_other[OF this, of ev "emit (PdfOpen (name d)) w" "[]"] assms(1)
  show ?thesis
    by (simp add: count_extract emit_def)
qed

section \<open>The claims\<close>

text \<open>
  C1. For every page of a document, if direct text extraction returns a string that is
  not empty after trimming white space, then the OCR engine is never invoked for that
  page (neither the renderer nor the reader is called while the loop is at that page
  number, whatever the rest of the document does) and the page's block is the direct
  one: what the loop body appends to \<open>full_text\<close> is a newline, \<open>--- Page n ---\<close> with the
  1-based page number and no OCR annotation, a newline, and the extracted text.
\<close>

theorem C1_direct_text_never_ocr:
  assumes "pdf_open d = Inr pages" and "i < length pages"
    and "extract_text (pages ! i) = Inr (Some t)" and "strip t \<noteq> []"
  shows "page_body ev w ft (Suc i, pages ! i)
           = (emit (ExtractText (Suc i)) w,
              Inr (ft @ [10] @ py ''--- Page '' @ str_nat (Suc i) @ py '' ---'' @ [10] @ t))
     \<and> count_list (trace (fst (extract_text_from_pdf ev d w0))) (ReadText (Suc i)) = count_list (trace w0) (ReadText (Suc i))
     \<and> count_list (trace (fst (extract_text_from_pdf ev d w0))) (ToImage (Suc i)) = count_list (trace w0) (ToImage (Suc i))"
proof -
  have t: "t \<noteq> []" using assms(4) by auto
  have a: "page_body ev w ft (Suc i, pages ! i)
           = (emit (ExtractText (Suc i)) w,
              Inr (ft @ [10] @ py ''--- Page '' @ str_nat (Suc i) @ py '' ---'' @ [10] @ t))"
    using assms(3,4) t by (simp add: page_body_def direct_block_def Let_def)
  have "\<not> needs_ocr (pages ! i)" using assms(3,4) by (simp add: needs_ocr_def)
  from count_extract_other[OF assms(1,2) this, of ev w0] a show ?thesis by simp
qed

text \<open>C1 at the first page of a three-page document.\<close>

theorem C1_witness:
  "pdf_open ex_doc = Inr [ex_page_direct, ex_page_scan, ex_page_blank]
   \<and> extract_text ([ex_page_direct, ex_page_scan, ex_page_blank] ! 0) = Inr (Some (py ''Hello''))
   \<and> strip (py ''Hello'') \<noteq> []
   \<and> page_body ex_env ex_world [] (1, ex_page_direct)
       = (emit (ExtractText 1) ex_world,
          Inr [10, 45, 45, 45, 32, 80, 97, 103, 101, 32, 49, 32, 45, 45, 45, 10, 72, 101, 108, 108, 111])
   \<and> count_list (trace (fst (extract_text_from_pdf ex_env ex_doc ex_world))) (ReadText 1) = 0
   \<and> count_list (trace (fst (extract_text_from_pdf ex_env ex_doc ex_world))) (ToImage 1) = 0"
proof -
  have h1: "pdf_open ex_doc = Inr [ex_page_direct, ex_page_scan, ex_page_blank]"
    by (simp add: ex_doc_def)
  have h2: "(0::nat) < length [ex_page_direct, ex_page_scan, ex_page_blank]" by simp
  have h3: "extract_text ([ex_page_direct, ex_page_scan, ex_page_blank] ! 0) = Inr (Some (py ''Hello''))"
    by (simp add: ex_page_direct_def)
  have h4: "strip (py ''Hello'') \<noteq> []"
    by (simp add: strip_def py_def isspace_def)
  have tr: "trace ex_world = []" by (simp add: ex_world_def)
  have v: "[10] @ py ''--- Page '' @ str_nat (Suc 0) @ py '' ---'' @ [10] @ py ''Hello''
       = [10, 45, 45, 45, 32, 80, 97, 103, 101, 32, 49, 32, 45, 45, 45, 10, 72, 101, 108, 108, 111]"
    by (simp add: py_def str_nat.simps)
  show ?thesis
    using C1_direct_text_never_ocr[OF h1 h2 h3 h4, of ex_env ex_world "[]" ex_world] h1 h3 h4 tr v
    by simp
qed

lemma ocr_fallback_cases:
  "(case ocr_outcome ev pg of
      Inl e \<Rightarrow> \<exists>evs. ocr_fallback ev w ft n pg
                 = (w\<lparr>trace := trace w @ ToImage n # evs @ [Log WARNING (could_not_ocr_message n e)]\<rparr>, ft)
    | Inr rs \<Rightarrow>
        if rs = []
        then ocr_fallback ev w ft n pg
               = (w\<lparr>trace := trace w @ [ToImage n, ReadText n, Log WARNING (no_text_message n)]\<rparr>, ft)
        else ocr_fallback ev w ft n pg
               = (w\<lparr>trace := trace w @ [ToImage n, ReadText n]\<rparr>, ft @ ocr_block n (join [10] rs)))"
proof (cases "to_image pg 150")
  case (Inl e)
  then show ?thesis
    by (auto simp: ocr_outcome_def ocr_fallback_def Let_def log_defs could_not_ocr_message_def
        intro!: exI[of _ "[]"])
next
  case (Inr img)
  then show ?thesis
    by (cases "readtext ev img")
       (auto simp: ocr_outcome_def ocr_fallback_def Let_def log_defs could_not_ocr_message_def
          no_text_message_def intro!: exI[of _ "[ReadText n]"])
qed

lemma page_body_needs_ocr:
  assumes "needs_ocr pg"
  shows "page_body ev w ft (n, pg) =
           (fst (ocr_fallback ev (emit (ExtractText n) w) ft n pg),
            Inr (snd (ocr_fallback ev (emit (ExtractText n) w) ft n pg)))"
  using assms
  by (auto simp: needs_ocr_def page_body_def Let_def split: sum.splits option.splits prod.splits)

text \<open>
  C2, as amended. For every page whose direct extraction returns (does not raise),
  exactly one text source is used, and the loop goes on with the next page of the same
  document. When the returned string is not empty after trimming, the direct block is
  appended and \<open>extract_text\<close> is the only call made. Otherwise (\<open>None\<close>, empty, or white
  space only) the page is rendered and the direct text is not used: the OCR block with
  the fragments joined by newlines is appended when the reader gives fragments; when it
  gives none, or rendering or reading raises, \<open>full_text\<close> stays as it was (an empty
  contribution) and a warning with the page number is logged.
\<close>

theorem C2_one_source_per_page:
  assumes "extract_text pg = Inr x"
  shows "\<exists>w' ft'. page_body ev w ft (n, pg) = (w', Inr ft')
     \<and> pages_loop ev w ft ((n, pg) # rest) = pages_loop ev w' ft' rest
     \<and> ((\<exists>t. x = Some t \<and> strip t \<noteq> []) \<longrightarrow>
           (\<forall>t. x = Some t \<longrightarrow> ft' = ft @ [10] @ py ''--- Page '' @ str_nat n @ py '' ---'' @ [10] @ t)
           \<and> trace w' = trace w @ [ExtractText n])
     \<and> (\<not> (\<exists>t. x = Some t \<and> strip t \<noteq> []) \<longrightarrow>
           (case to_image pg 150 of
              Inl e \<Rightarrow>
                ft' = ft
                \<and> trace w' = trace w @ [ExtractText n, ToImage n,
                      Log WARNING (py ''Could not OCR page '' @ str_nat n @ py '': '' @ e)]
            | Inr img \<Rightarrow>
                (case readtext ev img of
                   Inl e \<Rightarrow>
                     ft' = ft
                     \<and> trace w' = trace w @ [ExtractText n, ToImage n, ReadText n,
                           Log WARNING (py ''Could not OCR page '' @ str_nat n @ py '': '' @ e)]
                 | Inr results \<Rightarrow>
                     if results = []
                     then ft' = ft
                       \<and> trace w' = trace w @ [ExtractText n, ToImage n, ReadText n,
                             Log WARNING (py ''No text found on page '' @ str_nat n)]
                     else ft' = ft @ [10] @ py ''--- Page '' @ str_nat n @ py '' (OCR) ---'' @ [10]
                                 @ join [10] results
                       \<and> trace w' = trace w @ [ExtractText n, ToImage n, ReadText n])))"
proof (cases "\<exists>t. x = Some t \<and> strip t \<noteq> []")
  case True
  then obtain t where t: "x = Some t" "strip t \<noteq> []" by auto
  then have "t \<noteq> []" by auto
  then have pb: "page_body ev w ft (n, pg) = (emit (ExtractText n) w, Inr (ft @ direct_block n t))"
    using assms t by (simp add: page_body_def Let_def)
  show ?thesis
    using True pb t by (simp add: emit_def direct_block_def)
next
  case False
  let ?w1 = "emit (ExtractText n) w"
  have pb: "page_body ev w ft (n, pg) =
              (fst (ocr_fallback ev ?w1 ft n pg), Inr (snd (ocr_fallback ev ?w1 ft n pg)))"
    using assms False
    by (cases x) (auto simp: page_body_def Let_def split: prod.splits)
  show ?thesis
  proof (cases "to_image pg 150")
    case (Inl e)
    then have "ocr_fallback ev ?w1 ft n pg
        = (logger_warning (py ''Could not OCR page '' @ str_nat n @ py '': '' @ e) (emit (ToImage n) ?w1), ft)"
      by (simp add: ocr_fallback_def Let_def)
    then show ?thesis using False Inl pb by (simp add: log_defs)
  next
    case (Inr img)
    show ?thesis
    proof (cases "readtext ev img")
      case (Inl e)
      then have "ocr_fallback ev ?w1 ft n pg
          = (logger_warning (py ''Could not OCR page '' @ str_nat n @ py '': '' @ e)
               (emit (ReadText n) (emit (ToImage n) ?w1)), ft)"
        using \<open>to_image pg 150 = Inr img\<close> by (simp add: ocr_fallback_def Let_def)
      then show ?thesis using False Inl \<open>to_image pg 150 = Inr img\<close> pb by (simp add: log_defs)
    next
      case (Inr results)
      show ?thesis
      proof (cases "results = []")
        case True
        then have "ocr_fallback ev ?w1 ft n pg
            = (logger_warning (py ''No text found on page '' @ str_nat n)
                 (emit (ReadText n) (emit (ToImage n) ?w1)), ft)"
          using Inr \<open>to_image pg 150 = Inr img\<close> by (simp add: ocr_fallback_def Let_def)
        then show ?thesis
          using False True Inr \<open>to_image pg 150 = Inr img\<close> pb by (simp add: log_defs)
      next
        case nonempty: False
        then have "ocr_fallback ev ?w1 ft n pg
            = (emit (ReadText n) (emit (ToImage n) ?w1), ft @ ocr_block n (join [10] results))"
          using Inr \<open>to_image pg 150 = Inr img\<close> by (simp add: ocr_fallback_def Let_def)
        then show ?thesis
          using False nonempty Inr \<open>to_image pg 150 = Inr img\<close> pb
          by (simp add: log_defs ocr_block_def)
      qed
    qed
  qed
qed

text \<open>
  C2 at a page with text, at a scanned page on which the reader finds two fragments, and
  at a page without text on which the reader finds nothing.
\<close>

theorem C2_witness:
  "extract_text ex_page_direct = Inr (Some (py ''Hello'')) \<and> strip (py ''Hello'') \<noteq> []
   \<and> (\<exists>w'. page_body ex_env ex_world [] (1, ex_page_direct)
             = (w', Inr [10, 45, 45, 45, 32, 80, 97, 103, 101, 32, 49, 32, 45, 45, 45, 10,
                         72, 101, 108, 108, 111])
          \<and> trace w' = [ExtractText 1])
   \<and> extract_text ex_page_scan = Inr (Some [32]) \<and> strip [32] = []
   \<and> to_image ex_page_scan 150 = Inr 7
   \<and> readtext ex_env 7 = Inr [[115, 99, 97, 110, 110, 101, 100], [116, 101, 120, 116]]
   \<and> (\<exists>w'. page_body ex_env ex_world [] (2, ex_page_scan)
             = (w', Inr [10, 45, 45, 45, 32, 80, 97, 103, 101, 32, 50, 32, 40, 79, 67, 82, 41, 32,
                         45, 45, 45, 10, 115, 99, 97, 110, 110, 101, 100, 10, 116, 101, 120, 116])
          \<and> trace w' = [ExtractText 2, ToImage 2, ReadText 2])
   \<and> extract_text ex_page_blank = Inr None
   \<and> to_image ex_page_blank 150 = Inr 2 \<and> readtext ex_env 2 = Inr []
   \<and> (\<exists>w'. page_body ex_env ex_world [120] (3, ex_page_blank) = (w', Inr [120])
          \<and> pages_loop ex_env ex_world [120] [(3, ex_page_blank), (4, ex_page_direct)]
               = pages_loop ex_env w' [120] [(4, ex_page_direct)]
          \<and> trace w' = [ExtractText 3, ToImage 3, ReadText 3,
                Log WARNING [78, 111, 32, 116, 101, 120, 116, 32, 102, 111, 117, 110, 100, 32,
                             111, 110, 32, 112, 97, 103, 101, 32, 51]])"
proof -
  have tr: "trace ex_world = []" by (simp add: ex_world_def)
  have d: "extract_text ex_page_direct = Inr (Some (py ''Hello''))" "strip (py ''Hello'') \<noteq> []"
    by (simp_all add: ex_page_direct_def strip_def py_def isspace_def)
  have s: "extract_text ex_page_scan = Inr (Some [32])" "strip [32] = []"
    "to_image ex_page_scan 150 = Inr 7"
    "readtext ex_env 7 = Inr [[115, 99, 97, 110, 110, 101, 100], [116, 101, 120, 116]]"
    by (simp_all add: ex_page_scan_def ex_env_def strip_def py_def isspace_def)
  have b: "extract_text ex_page_blank = Inr None" "to_image ex_page_blank 150 = Inr 2"
    "readtext ex_env 2 = Inr []"
    by (simp_all add: ex_page_blank_def ex_env_def)
  have v1: "[10] @ py ''--- Page '' @ str_nat 1 @ py '' ---'' @ [10] @ py ''Hello''
       = [10, 45, 45, 45, 32, 80, 97, 103, 101, 32, 49, 32, 45, 45, 45, 10, 72, 101, 108, 108, 111]"
    by (simp add: py_def str_nat.simps)
  have v2: "[10] @ py ''--- Page '' @ str_nat 2 @ py '' (OCR) ---'' @ [10]
              @ join [10] [[115, 99, 97, 110, 110, 101, 100], [116, 101, 120, 116]]
       = [10, 45, 45, 45, 32, 80, 97, 103, 101, 32, 50, 32, 40, 79, 67, 82, 41, 32,
          45, 45, 45, 10, 115, 99, 97, 110, 110, 101, 100, 10, 116, 101, 120, 116]"
    by (simp add: py_def str_nat.simps)
  have v3: "py ''No text found on page '' @ str_nat 3
       = [78, 111, 32, 116, 101, 120, 116, 32, 102, 111, 117, 110, 100, 32,
          111, 110, 32, 112, 97, 103, 101, 32, 51]"
    by (simp add: py_def str_nat.simps)
  have a1: "\<exists>w'. page_body ex_env ex_world [] (1, ex_page_direct)
             = (w', Inr [10, 45, 45, 45, 32, 80, 97, 103, 101, 32, 49, 32, 45, 45, 45, 10,
                         72, 101, 108, 108, 111])
          \<and> trace w' = [ExtractText 1]"
    using C2_one_source_per_page[OF d(1), of ex_env ex_world "[]" 1 "[]"] d(2) tr v1 by auto
  have a2: "\<exists>w'. page_body ex_env ex_world [] (2, ex_page_scan)
             = (w', Inr [10, 45, 45, 45, 32, 80, 97, 103, 101, 32, 50, 32, 40, 79, 67, 82, 41, 32,
                         45, 45, 45, 10, 115, 99, 97, 110, 110, 101, 100, 10, 116, 101, 120, 116])
          \<and> trace w' = [ExtractText 2, ToImage 2, ReadText 2]"
    using C2_one_source_per_page[OF s(1), of ex_env ex_world "[]" 2 "[]"] s(2,3,4) tr v2 by auto
  have a3: "\<exists>w'. page_body ex_env ex_world [120] (3, ex_page_blank) = (w', Inr [120])
          \<and> pages_loop ex_env ex_world [120] [(3, ex_page_blank), (4, ex_page_direct)]
               = pages_loop ex_env w' [120] [(4, ex_page_direct)]
          \<and> trace w' = [ExtractText 3, ToImage 3, ReadText 3,
                Log WARNING [78, 111, 32, 116, 101, 120, 116, 32, 102, 111, 117, 110, 100, 32,
                             111, 110, 32, 112, 97, 103, 101, 32, 51]]"
    using C2_one_source_per_page[OF b(1), of ex_env ex_world "[120]" 3 "[(4, ex_page_direct)]"]
      b(2,3) tr v3 by auto
  show ?thesis using d s b a1 a2 a3 by blast
qed

text \<open>
  C2 as stated fails at a page on which \<open>extract_text\<close> itself raises: the call is outside
  the inner \<open>try\<close>, so neither source gives the page's text, no warning is logged, and the
  loop does not go on to the second page; the outer handler logs an error and the
  document's text is empty.
\<close>

theorem C2_counterexample:
  "extract_text ex_page_broken = Inl (py ''bad stream'')
   \<and> pdf_open ex_doc_broken = Inr [ex_page_broken, ex_page_direct]
   \<and> trace (fst (page_body ex_env ex_world [] (1, ex_page_broken))) = [ExtractText 1]
   \<and> snd (page_body ex_env ex_world [] (1, ex_page_broken)) = Inl (py ''bad stream'')
   \<and> snd (pages_loop ex_env ex_world [] [(1, ex_page_broken), (2, ex_page_direct)])
       = Inl (py ''bad stream'')
   \<and> trace (fst (extract_text_from_pdf ex_env ex_doc_broken ex_world))
       = [PdfOpen (py ''c.pdf''), ExtractText 1, Log ERROR (py ''Error processing c.pdf: bad stream'')]
   \<and> snd (extract_text_from_pdf ex_env ex_doc_broken ex_world) = []"
  by (simp add: ex_doc_broken_def ex_page_broken_def ex_world_def
      extract_text_from_pdf_def page_body_def Let_def log_defs enumerate_eq_zip py_def)

lemma first_fault_None:
  "first_fault pgs = None \<longleftrightarrow> (\<forall>pg \<in> set pgs. \<exists>x. extract_text pg = Inr x)"
  by (induction pgs) (auto split: sum.splits)

text \<open>
  C3, as amended. For every page that the loop reaches (no earlier page of the document
  raised in \<open>extract_text\<close>) and whose direct extraction yields \<open>None\<close>, the empty string or
  white space only, the page is rendered exactly once, and the OCR reader is invoked
  exactly once when rendering succeeds and not at all when rendering raises.
\<close>

theorem C3_ocr_once_when_rendered:
  assumes "pdf_open d = Inr pages" and "i < length pages"
    and "first_fault (take i pages) = None" and "needs_ocr (pages ! i)"
  shows "count_list (trace (fst (extract_text_from_pdf ev d w))) (ToImage (Suc i))
           = count_list (trace w) (ToImage (Suc i)) + 1
     \<and> count_list (trace (fst (extract_text_from_pdf ev d w))) (ReadText (Suc i))
           = count_list (trace w) (ReadText (Suc i)) + (if renders (pages ! i) then 1 else 0)"
proof -
  let ?pre = "enumerate 1 (take i pages)"
  let ?post = "enumerate (Suc (Suc i)) (drop (Suc i) pages)"
  have split: "enumerate 1 pages = ?pre @ (Suc i, pages ! i) # ?post"
    using enumerate_split[OF assms(2), of 1] by simp
  have pre: "\<forall>np \<in> set ?pre. fst np \<noteq> Suc i \<and> (\<exists>x. extract_text (snd np) = Inr x)"
  proof
    fix np assume np: "np \<in> set ?pre"
    then have "fst np < Suc i" using assms(2) by (auto simp: in_set_enumerate_eq)
    moreover have "snd np \<in> set (take i pages)"
      using np by (metis map_snd_enumerate image_eqI set_map)
    ultimately show "fst np \<noteq> Suc i \<and> (\<exists>x. extract_text (snd np) = Inr x)"
      using assms(3) by (auto simp: first_fault_None)
  qed
  have post: "\<forall>np \<in> set ?post. fst np \<noteq> Suc i"
    by (auto simp: in_set_enumerate_eq)
  from count_pages_loop_at[OF pre post assms(4), of ev "emit (PdfOpen (name d)) w" "[]"] split assms(1)
  show ?thesis
    by (simp add: count_extract emit_def)
qed

text \<open>C3 at the second page of a three-page document, a scan that renders.\<close>

theorem C3_witness:
  "pdf_open ex_doc = Inr [ex_page_direct, ex_page_scan, ex_page_blank]
   \<and> first_fault (take 1 [ex_page_direct, ex_page_scan, ex_page_blank]) = None
   \<and> needs_ocr ([ex_page_direct, ex_page_scan, ex_page_blank] ! 1)
   \<and> renders ex_page_scan
   \<and> count_list (trace (fst (extract_text_from_pdf ex_env ex_doc ex_world))) (ToImage (Suc 1)) = 1
   \<and> count_list (trace (fst (extract_text_from_pdf ex_env ex_doc ex_world))) (ReadText (Suc 1)) = 1"
proof -
  have h1: "pdf_open ex_doc = Inr [ex_page_direct, ex_page_scan, ex_page_blank]"
    by (simp add: ex_doc_def)
  have h2: "(1::nat) < length [ex_page_direct, ex_page_scan, ex_page_blank]" by simp
  have h3: "first_fault (take 1 [ex_page_direct, ex_page_scan, ex_page_blank]) = None"
    by (simp add: ex_page_direct_def)
  have h4: "needs_ocr ([ex_page_direct, ex_page_scan, ex_page_blank] ! 1)"
    by (simp add: needs_ocr_def ex_page_scan_def strip_def py_def isspace_def)
  have r: "renders ex_page_scan" by (simp add: renders_def ex_page_scan_def)
  have tr: "trace ex_world = []" by (simp add: ex_world_def)
  show ?thesis
    using C3_ocr_once_when_rendered[OF h1 h2 h3 h4, of ex_env ex_world] h1 h3 h4 r tr
    by simp
qed

text \<open>
  C3 as stated fails: a page with empty direct text whose rendering raises. The renderer
  is called, the handler logs the warning, and the reader is never called.
\<close>

theorem C3_counterexample:
  "pdf_open ex_doc_norender = Inr [ex_page_norender]
   \<and> extract_text ex_page_norender = Inr (Some [])
   \<and> trace (fst (extract_text_from_pdf ex_env ex_doc_norender ex_world))
       = [PdfOpen (py ''n.pdf''), ExtractText 1, ToImage 1,
          Log WARNING (py ''Could not OCR page 1: render failed'')]
   \<and> count_list (trace (fst (extract_text_from_pdf ex_env ex_doc_norender ex_world))) (ReadText 1) = 0"
  by (simp add: ex_doc_norender_def ex_page_norender_def ex_world_def ex_env_def
      extract_text_from_pdf_def page_body_def ocr_fallback_def Let_def log_defs
      enumerate_eq_zip str_nat.simps py_def)

text \<open>
  C4. For every document that opens and iterates (no \<open>extract_text\<close> raises), the result
  of \<open>extract_text_from_pdf\<close> is the trimmed concatenation, in page order, of the blocks of
  its pages, each block a marker with the 1-based page number, annotated when the text
  came from OCR, followed by the text (the OCR fragments joined by newlines). The result
  may be the empty string, as it is for a document without pages.
\<close>

theorem C4_document_text:
  assumes "pdf_open d = Inr pages" and "first_fault pages = None"
  shows "snd (extract_text_from_pdf ev d w) = spec_document_text ev pages
     \<and> (pages = [] \<longrightarrow> snd (extract_text_from_pdf ev d w) = [])"
proof -
  have "document_failure d = None" using assms by (simp add: document_failure_def)
  from snd_extract_ok[OF this, of ev w] assms(1)
  have a: "snd (extract_text_from_pdf ev d w) = spec_document_text ev pages" by auto
  have "pages = [] \<longrightarrow> spec_document_text ev pages = []"
    by (simp add: spec_document_text_def)
  with a show ?thesis by simp
qed

text \<open>C4 at a document with a text page, a scanned page and a page without any text.\<close>

theorem C4_witness:
  "pdf_open ex_doc = Inr [ex_page_direct, ex_page_scan, ex_page_blank]
   \<and> first_fault [ex_page_direct, ex_page_scan, ex_page_blank] = None
   \<and> snd (extract_text_from_pdf ex_env ex_doc ex_world)
       = py ''--- Page 1 ---'' @ [10] @ py ''Hello'' @ [10] @ py ''--- Page 2 (OCR) ---'' @ [10]
         @ py ''scanned'' @ [10] @ py ''text''"
proof -
  have h1: "pdf_open ex_doc = Inr [ex_page_direct, ex_page_scan, ex_page_blank]"
    by (simp add: ex_doc_def)
  have h2: "first_fault [ex_page_direct, ex_page_scan, ex_page_blank] = None"
    by (simp add: ex_page_direct_def ex_page_scan_def ex_page_blank_def)
  have v: "spec_document_text ex_env [ex_page_direct, ex_page_scan, ex_page_blank]
       = py ''--- Page 1 ---'' @ [10] @ py ''Hello'' @ [10] @ py ''--- Page 2 (OCR) ---'' @ [10]
         @ py ''scanned'' @ [10] @ py ''text''"
    by (simp add: spec_document_text_def spec_page_block_def has_direct_text_def ocr_outcome_def
        ex_page_direct_def ex_page_scan_def ex_page_blank_def ex_env_def direct_block_def ocr_block_def
        enumerate_eq_zip str_nat.simps py_def strip_def isspace_def)
  show ?thesis
    using C4_document_text[OF h1 h2, of ex_env ex_world] h1 h2 v by simp
qed

lemma yields_no_text_block:
  assumes "needs_ocr pg" and "ocr_outcome ev pg = Inl e \<or> ocr_outcome ev pg = Inr []"
  shows "spec_page_block ev (n, pg) = []"
  using assms
  by (auto simp: spec_page_block_def needs_ocr_def has_direct_text_def split: sum.splits option.splits)

lemma needs_ocr_returns: "needs_ocr pg \<Longrightarrow> \<exists>x. extract_text pg = Inr x"
  by (auto simp: needs_ocr_def split: sum.splits)

text \<open>
  C9. A page that resolves to no text (its direct extraction gives nothing and the
  reader gives no fragment, or rendering or reading raises) leaves \<open>full_text\<close> as it was:
  no marker and no block. The text of a document that opens and iterates is the trimmed
  concatenation of the blocks of the pages before it and of the pages after it, which
  keep their own page numbers.
\<close>

theorem C9_empty_page_omitted:
  assumes "needs_ocr pg" and "ocr_outcome ev pg = Inl e \<or> ocr_outcome ev pg = Inr []"
  shows "snd (page_body ev w ft (n, pg)) = Inr ft
     \<and> (pdf_open d = Inr pages \<and> first_fault pages = None \<and> i < length pages \<and> pages ! i = pg \<longrightarrow>
          snd (extract_text_from_pdf ev d w0) =
            strip (concat (map (spec_page_block ev) (enumerate 1 (take i pages)))
                   @ concat (map (spec_page_block ev) (enumerate (Suc (Suc i)) (drop (Suc i) pages)))))"
proof -
  obtain x where x: "extract_text pg = Inr x" using needs_ocr_returns[OF assms(1)] by auto
  have blk: "spec_page_block ev (k, pg) = []" for k
    using yields_no_text_block[OF assms] .
  have a: "snd (page_body ev w ft (n, pg)) = Inr ft"
    using snd_page_body[OF x, of ev w ft n] blk by simp
  have b: "snd (extract_text_from_pdf ev d w0) =
            strip (concat (map (spec_page_block ev) (enumerate 1 (take i pages)))
                   @ concat (map (spec_page_block ev) (enumerate (Suc (Suc i)) (drop (Suc i) pages))))"
    if h: "pdf_open d = Inr pages" "first_fault pages = None" "i < length pages" "pages ! i = pg"
  proof -
    have "document_failure d = None" using h by (simp add: document_failure_def)
    from snd_extract_ok[OF this, of ev w0] h(1)
    have "snd (extract_text_from_pdf ev d w0) = spec_document_text ev pages" by auto
    moreover have "enumerate 1 pages = enumerate 1 (take i pages) @ (Suc i, pages ! i)
                     # enumerate (Suc (Suc i)) (drop (Suc i) pages)"
      using enumerate_split[OF h(3), of 1] by simp
    ultimately show ?thesis using blk h(4) by (simp add: spec_document_text_def)
  qed
  show ?thesis using a b by blast
qed

text \<open>C9 at the third page of the example document.\<close>

theorem C9_witness:
  "needs_ocr ex_page_blank \<and> ocr_outcome ex_env ex_page_blank = Inr []
   \<and> snd (page_body ex_env ex_world (py ''x'') (3, ex_page_blank)) = Inr (py ''x'')
   \<and> snd (extract_text_from_pdf ex_env ex_doc ex_world)
       = py ''--- Page 1 ---'' @ [10] @ py ''Hello'' @ [10] @ py ''--- Page 2 (OCR) ---'' @ [10]
         @ py ''scanned'' @ [10] @ py ''text''"
proof -
  have n: "needs_ocr ex_page_blank" by (simp add: needs_ocr_def ex_page_blank_def)
  have o: "ocr_outcome ex_env ex_page_blank = Inr []"
    by (simp add: ocr_outcome_def ex_page_blank_def ex_env_def)
  have o': "ocr_outcome ex_env ex_page_blank = Inl [] \<or> ocr_outcome ex_env ex_page_blank = Inr []"
    using o by simp
  have h: "pdf_open ex_doc = Inr [ex_page_direct, ex_page_scan, ex_page_blank]
       \<and> first_fault [ex_page_direct, ex_page_scan, ex_page_blank] = None
       \<and> (2::nat) < length [ex_page_direct, ex_page_scan, ex_page_blank]
       \<and> [ex_page_direct, ex_page_scan, ex_page_blank] ! 2 = ex_page_blank"
    by (simp add: ex_doc_def ex_page_direct_def ex_page_scan_def ex_page_blank_def)
  have v: "strip (concat (map (spec_page_block ex_env) (enumerate 1 (take 2 [ex_page_direct, ex_page_scan, ex_page_blank])))
                   @ concat (map (spec_page_block ex_env) (enumerate (Suc (Suc 2)) (drop (Suc 2) [ex_page_direct, ex_page_scan, ex_page_blank]))))
       = py ''--- Page 1 ---'' @ [10] @ py ''Hello'' @ [10] @ py ''--- Page 2 (OCR) ---'' @ [10]
         @ py ''scanned'' @ [10] @ py ''text''"
    by (simp add: spec_page_block_def has_direct_text_def ocr_outcome_def
        ex_page_direct_def ex_page_scan_def ex_env_def direct_block_def ocr_block_def
        enumerate_eq_zip str_nat.simps py_def strip_def isspace_def)
  show ?thesis
    using C9_empty_page_omitted[OF n o', of ex_world "py ''x''" 3 ex_doc
        "[ex_page_direct, ex_page_scan, ex_page_blank]" 2 ex_world] n o h v
    by simp
qed


section \<open>The batch and \<open>main\<close>\<close>

lemma extract_world:
  assumes "extract_text_from_pdf ev d w = (w2, text)"
  shows "\<exists>evs. w2 = w\<lparr>trace := trace w @ PdfOpen (name d) # evs\<rparr>"
  using extract_frame[of ev d w] assms by simp

lemma path_name_joinpath [simp]: "path_name (joinpath p c) = c"
  by (simp add: path_name_def joinpath_def)

lemma glob_pdf_upd [simp]:
  "glob_pdf (w\<lparr>trace := t\<rparr>) = glob_pdf w"
  "glob_pdf (w\<lparr>dirs := ds\<rparr>) = glob_pdf w"
  by (simp_all add: glob_pdf_def)

lemma set_add_dir [simp]: "set (add_dir p ds) = insert p (set ds)"
  by (auto simp: add_dir_def)

lemmas main_defs = main_def setup_folders_def get_timestamp_folder_def setup_logging_def
  check_dependencies_def mkdir_def mkdir_parents_def joinpath_def parent_def Let_def

lemma process_pdfs_empty:
  assumes "glob_pdf w = []"
  shows "snd (process_pdfs ev input_dir original_dir processed_dir w) = Inr 0"
  using assms by (simp add: process_pdfs_def Let_def log_defs)

lemma process_one_accepted:
  assumes "fs_accepts ev input_dir original_dir processed_dir f"
  shows "\<exists>evs tx.
      process_one ev input_dir original_dir processed_dir n_files w (i, f)
        = (w\<lparr>trace := trace w
                 @ [Log INFO (py ''['' @ str_nat i @ py ''/'' @ str_nat n_files @ py ''] Processing: '' @ name f),
                    PdfOpen (name f)]
                 @ evs
                 @ [WriteText (joinpath processed_dir (stem (name f) @ py ''.txt'')) tx,
                    Move (joinpath input_dir (name f)) (joinpath original_dir (name f)),
                    Log INFO (py ''  '' @ [10003] @ py '' Saved: '' @ stem (name f) @ py ''.txt'')],
              text_files := (text_files w)(joinpath processed_dir (stem (name f) @ py ''.txt'') \<mapsto> tx),
              input_files := filter (\<lambda>g. name g \<noteq> name f) (input_files w),
              moved_files := (moved_files w)(joinpath original_dir (name f) \<mapsto> f)\<rparr>,
           Inr ())
      \<and> (\<forall>e. document_failure f = Some e \<longrightarrow>
            tx = [] \<and> (\<exists>evs'. evs = evs' @ [Log ERROR (py ''Error processing '' @ name f @ py '': '' @ e)]))"
proof -
  let ?w1 = "logger_info (py ''['' @ str_nat i @ py ''/'' @ str_nat n_files @ py ''] Processing: '' @ name f) w"
  obtain w2 tx where ex: "extract_text_from_pdf ev f ?w1 = (w2, tx)"
    by (cases "extract_text_from_pdf ev f ?w1")
  obtain evs where w2: "w2 = ?w1\<lparr>trace := trace ?w1 @ PdfOpen (name f) # evs\<rparr>"
    using extract_world[OF ex] by auto
  have fail: "tx = [] \<and> (\<exists>evs'. evs = evs' @ [Log ERROR (py ''Error processing '' @ name f @ py '': '' @ e)])"
    if df: "document_failure f = Some e" for e
  proof -
    obtain evs' where "extract_text_from_pdf ev f ?w1 =
        (?w1\<lparr>trace := trace ?w1 @ PdfOpen (name f) # evs' @ [Log ERROR (error_processing_message (name f) e)]\<rparr>, [])"
      using extract_fault[OF df, of ev ?w1] by auto
    then have "tx = []" and "trace w2 = trace ?w1 @ PdfOpen (name f) # evs' @ [Log ERROR (error_processing_message (name f) e)]"
      using ex by auto
    then show ?thesis using w2 by (simp add: error_processing_message_def)
  qed
  have po: "process_one ev input_dir original_dir processed_dir n_files w (i, f)
        = (w\<lparr>trace := trace w
                 @ [Log INFO (py ''['' @ str_nat i @ py ''/'' @ str_nat n_files @ py ''] Processing: '' @ name f),
                    PdfOpen (name f)]
                 @ evs
                 @ [WriteText (joinpath processed_dir (stem (name f) @ py ''.txt'')) tx,
                    Move (joinpath input_dir (name f)) (joinpath original_dir (name f)),
                    Log INFO (py ''  '' @ [10003] @ py '' Saved: '' @ stem (name f) @ py ''.txt'')],
              text_files := (text_files w)(joinpath processed_dir (stem (name f) @ py ''.txt'') \<mapsto> tx),
              input_files := filter (\<lambda>g. name g \<noteq> name f) (input_files w),
              moved_files := (moved_files w)(joinpath original_dir (name f) \<mapsto> f)\<rparr>,
           Inr ())"
    using assms ex w2 by (simp add: process_one_def fs_accepts_def Let_def log_defs)
  show ?thesis using po fail by blast
qed

lemma process_loop_accepted:
  assumes "\<forall>ip \<in> set ips. fs_accepts ev input_dir original_dir processed_dir (snd ip)"
  shows "\<exists>w' evs.
      process_loop ev input_dir original_dir processed_dir n_files w ips = (w', Inr ())
      \<and> trace w' = trace w @ evs
      \<and> (\<forall>ip \<in> set ips.
            PdfOpen (name (snd ip)) \<in> set evs
            \<and> (\<exists>tx. WriteText (joinpath processed_dir (stem (name (snd ip)) @ py ''.txt'')) tx \<in> set evs)
            \<and> Move (joinpath input_dir (name (snd ip))) (joinpath original_dir (name (snd ip))) \<in> set evs)
      \<and> set (input_files w') = {g \<in> set (input_files w). name g \<notin> name ` snd ` set ips}"
  using assms
proof (induction ips arbitrary: w)
  case Nil
  show ?case by (intro exI[of _ w] exI[of _ "[]"]) simp
next
  case (Cons ip rest)
  obtain i f where ip: "ip = (i, f)" by (cases ip)
  have acc: "fs_accepts ev input_dir original_dir processed_dir f" using Cons.prems ip by simp
  obtain evs tx where po_eq: "process_one ev input_dir original_dir processed_dir n_files w (i, f)
        = (w\<lparr>trace := trace w
                 @ [Log INFO (py ''['' @ str_nat i @ py ''/'' @ str_nat n_files @ py ''] Processing: '' @ name f),
                    PdfOpen (name f)]
                 @ evs
                 @ [WriteText (joinpath processed_dir (stem (name f) @ py ''.txt'')) tx,
                    Move (joinpath input_dir (name f)) (joinpath original_dir (name f)),
                    Log INFO (py ''  '' @ [10003] @ py '' Saved: '' @ stem (name f) @ py ''.txt'')],
              text_files := (text_files w)(joinpath processed_dir (stem (name f) @ py ''.txt'') \<mapsto> tx),
              input_files := filter (\<lambda>g. name g \<noteq> name f) (input_files w),
              moved_files := (moved_files w)(joinpath original_dir (name f) \<mapsto> f)\<rparr>,
           Inr ())"
    using process_one_accepted[OF acc, of n_files w i] by blast
  let ?evs1 = "[Log INFO (py ''['' @ str_nat i @ py ''/'' @ str_nat n_files @ py ''] Processing: '' @ name f),
                    PdfOpen (name f)]
                 @ evs
                 @ [WriteText (joinpath processed_dir (stem (name f) @ py ''.txt'')) tx,
                    Move (joinpath input_dir (name f)) (joinpath original_dir (name f)),
                    Log INFO (py ''  '' @ [10003] @ py '' Saved: '' @ stem (name f) @ py ''.txt'')]"
  obtain w1 where po: "process_one ev input_dir original_dir processed_dir n_files w (i, f) = (w1, Inr ())"
    and tr1: "trace w1 = trace w @ ?evs1"
    and if1: "input_files w1 = filter (\<lambda>g. name g \<noteq> name f) (input_files w)"
    using po_eq by simp
  have in1: "PdfOpen (name f) \<in> set ?evs1"
      "WriteText (joinpath processed_dir (stem (name f) @ py ''.txt'')) tx \<in> set ?evs1"
      "Move (joinpath input_dir (name f)) (joinpath original_dir (name f)) \<in> set ?evs1"
    by simp_all
  have rest: "\<forall>ip \<in> set rest. fs_accepts ev input_dir original_dir processed_dir (snd ip)"
    using Cons.prems by simp
  obtain w' evs2 where pl: "process_loop ev input_dir original_dir processed_dir n_files w1 rest = (w', Inr ())"
    and tr2: "trace w' = trace w1 @ evs2"
    and in2: "\<forall>ip \<in> set rest.
            PdfOpen (name (snd ip)) \<in> set evs2
            \<and> (\<exists>tx. WriteText (joinpath processed_dir (stem (name (snd ip)) @ py ''.txt'')) tx \<in> set evs2)
            \<and> Move (joinpath input_dir (name (snd ip))) (joinpath original_dir (name (snd ip))) \<in> set evs2"
    and if2: "set (input_files w') = {g \<in> set (input_files w1). name g \<notin> name ` snd ` set rest}"
    using Cons.IH[OF rest, of w1] by blast
  have a: "process_loop ev input_dir original_dir processed_dir n_files w (ip # rest) = (w', Inr ())"
    using po pl ip by simp
  have b: "trace w' = trace w @ (?evs1 @ evs2)" using tr1 tr2 by simp
  have c: "\<forall>ip' \<in> set (ip # rest).
            PdfOpen (name (snd ip')) \<in> set (?evs1 @ evs2)
            \<and> (\<exists>tx. WriteText (joinpath processed_dir (stem (name (snd ip')) @ py ''.txt'')) tx \<in> set (?evs1 @ evs2))
            \<and> Move (joinpath input_dir (name (snd ip'))) (joinpath original_dir (name (snd ip'))) \<in> set (?evs1 @ evs2)"
  proof
    fix ip' assume m: "ip' \<in> set (ip # rest)"
    show "PdfOpen (name (snd ip')) \<in> set (?evs1 @ evs2)
            \<and> (\<exists>tx. WriteText (joinpath processed_dir (stem (name (snd ip')) @ py ''.txt'')) tx \<in> set (?evs1 @ evs2))
            \<and> Move (joinpath input_dir (name (snd ip'))) (joinpath original_dir (name (snd ip'))) \<in> set (?evs1 @ evs2)"
    proof (cases "ip' = ip")
      case True
      then show ?thesis using in1 ip by auto
    next
      case False
      then have "ip' \<in> set rest" using m by simp
      then show ?thesis using in2 by auto
    qed
  qed
  have d: "set (input_files w') = {g \<in> set (input_files w). name g \<notin> name ` snd ` set (ip # rest)}"
    using if1 if2 ip by auto
  show ?case using a b c d by blast
qed

lemma process_loop_append:
  "process_loop ev input_dir original_dir processed_dir n_files w (xs @ ys) =
     (case process_loop ev input_dir original_dir processed_dir n_files w xs of
        (w1, Inl e) \<Rightarrow> (w1, Inl e)
      | (w1, Inr u) \<Rightarrow> process_loop ev input_dir original_dir processed_dir n_files w1 ys)"
  by (induction xs arbitrary: w) (auto split: prod.splits sum.splits)

text \<open>
  C5. For every document that fails to open or to iterate, the exception is caught:
  \<open>extract_text_from_pdf\<close> logs, as its last record, an error naming the document and
  returns the empty string. When the file system accepts the writes and the moves of the
  batch, the loop body at that document writes the empty text file and moves the
  original out of the input folder, and the batch goes on: every document that follows
  is opened, has its text file written and is moved, after the records of the failed
  one. The count returned by \<open>process_pdfs\<close> is the number of documents before it, plus
  one for it, plus the number of documents after it.
\<close>

theorem C5_document_failure_recovered:
  assumes "glob_pdf w = pre @ d # post"
    and "document_failure d = Some e"
    and "\<forall>f \<in> set (pre @ d # post). fs_accepts ev input_dir original_dir processed_dir f"
  shows "(\<exists>evs. extract_text_from_pdf ev d w0
            = (w0\<lparr>trace := trace w0 @ PdfOpen (name d) # evs
                       @ [Log ERROR (py ''Error processing '' @ name d @ py '': '' @ e)]\<rparr>, []))
     \<and> (\<exists>w1' evs. process_one ev input_dir original_dir processed_dir n_files w1 (i, d) = (w1', Inr ())
          \<and> trace w1' = trace w1
               @ [Log INFO (py ''['' @ str_nat i @ py ''/'' @ str_nat n_files @ py ''] Processing: '' @ name d),
                  PdfOpen (name d)]
               @ evs
               @ [Log ERROR (py ''Error processing '' @ name d @ py '': '' @ e),
                  WriteText (joinpath processed_dir (stem (name d) @ py ''.txt'')) [],
                  Move (joinpath input_dir (name d)) (joinpath original_dir (name d)),
                  Log INFO (py ''  '' @ [10003] @ py '' Saved: '' @ stem (name d) @ py ''.txt'')]
          \<and> text_files w1' (joinpath processed_dir (stem (name d) @ py ''.txt'')) = Some []
          \<and> moved_files w1' (joinpath original_dir (name d)) = Some d
          \<and> name d \<notin> name ` set (input_files w1'))
     \<and> (\<exists>w' evs_pre evs_d evs_post.
          process_pdfs ev input_dir original_dir processed_dir w
            = (w', Inr (Suc (length pre + length post)))
          \<and> trace w' = trace w
               @ [Log INFO (py ''Found '' @ str_nat (Suc (length pre + length post))
                            @ py '' PDF file(s). Starting OCR...'')]
               @ evs_pre
               @ [Log INFO (py ''['' @ str_nat (Suc (length pre)) @ py ''/''
                            @ str_nat (Suc (length pre + length post)) @ py ''] Processing: '' @ name d),
                  PdfOpen (name d)]
               @ evs_d
               @ [Log ERROR (py ''Error processing '' @ name d @ py '': '' @ e),
                  WriteText (joinpath processed_dir (stem (name d) @ py ''.txt'')) [],
                  Move (joinpath input_dir (name d)) (joinpath original_dir (name d)),
                  Log INFO (py ''  '' @ [10003] @ py '' Saved: '' @ stem (name d) @ py ''.txt'')]
               @ evs_post
          \<and> (\<forall>f \<in> set post.
                PdfOpen (name f) \<in> set evs_post
                \<and> (\<exists>tx. WriteText (joinpath processed_dir (stem (name f) @ py ''.txt'')) tx \<in> set evs_post)
                \<and> Move (joinpath input_dir (name f)) (joinpath original_dir (name f)) \<in> set evs_post)
          \<and> name d \<notin> name ` set (input_files w'))"
proof -
  have acc_d: "fs_accepts ev input_dir original_dir processed_dir d" using assms(3) by simp
  have a: "\<exists>evs. extract_text_from_pdf ev d w0
            = (w0\<lparr>trace := trace w0 @ PdfOpen (name d) # evs
                       @ [Log ERROR (py ''Error processing '' @ name d @ py '': '' @ e)]\<rparr>, [])"
    using extract_fault[OF assms(2), of ev w0] by (simp add: error_processing_message_def)
  have one: "\<exists>w1' evs. process_one ev input_dir original_dir processed_dir m v (k, d) = (w1', Inr ())
          \<and> trace w1' = trace v
               @ [Log INFO (py ''['' @ str_nat k @ py ''/'' @ str_nat m @ py ''] Processing: '' @ name d),
                  PdfOpen (name d)]
               @ evs
               @ [Log ERROR (py ''Error processing '' @ name d @ py '': '' @ e),
                  WriteText (joinpath processed_dir (stem (name d) @ py ''.txt'')) [],
                  Move (joinpath input_dir (name d)) (joinpath original_dir (name d)),
                  Log INFO (py ''  '' @ [10003] @ py '' Saved: '' @ stem (name d) @ py ''.txt'')]
          \<and> text_files w1' (joinpath processed_dir (stem (name d) @ py ''.txt'')) = Some []
          \<and> moved_files w1' (joinpath original_dir (name d)) = Some d
          \<and> input_files w1' = filter (\<lambda>g. name g \<noteq> name d) (input_files v)" for m v k
  proof -
    obtain evs tx where po: "process_one ev input_dir original_dir processed_dir m v (k, d)
        = (v\<lparr>trace := trace v
                 @ [Log INFO (py ''['' @ str_nat k @ py ''/'' @ str_nat m @ py ''] Processing: '' @ name d),
                    PdfOpen (name d)]
                 @ evs
                 @ [WriteText (joinpath processed_dir (stem (name d) @ py ''.txt'')) tx,
                    Move (joinpath input_dir (name d)) (joinpath original_dir (name d)),
                    Log INFO (py ''  '' @ [10003] @ py '' Saved: '' @ stem (name d) @ py ''.txt'')],
              text_files := (text_files v)(joinpath processed_dir (stem (name d) @ py ''.txt'') \<mapsto> tx),
              input_files := filter (\<lambda>g. name g \<noteq> name d) (input_files v),
              moved_files := (moved_files v)(joinpath original_dir (name d) \<mapsto> d)\<rparr>,
           Inr ())"
      and f: "\<forall>e. document_failure d = Some e \<longrightarrow>
            tx = [] \<and> (\<exists>evs'. evs = evs' @ [Log ERROR (py ''Error processing '' @ name d @ py '': '' @ e)])"
      using process_one_accepted[OF acc_d, of m v k] by blast
    from f assms(2) obtain evs' where tx: "tx = []"
      and evs: "evs = evs' @ [Log ERROR (py ''Error processing '' @ name d @ py '': '' @ e)]"
      by blast
    show ?thesis
      by (rule exI[of _ "fst (process_one ev input_dir original_dir processed_dir m v (k, d))"],
          rule exI[of _ evs']) (simp add: po tx evs)
  qed
  have b: "\<exists>w1' evs. process_one ev input_dir original_dir processed_dir n_files w1 (i, d) = (w1', Inr ())
          \<and> trace w1' = trace w1
               @ [Log INFO (py ''['' @ str_nat i @ py ''/'' @ str_nat n_files @ py ''] Processing: '' @ name d),
                  PdfOpen (name d)]
               @ evs
               @ [Log ERROR (py ''Error processing '' @ name d @ py '': '' @ e),
                  WriteText (joinpath processed_dir (stem (name d) @ py ''.txt'')) [],
                  Move (joinpath input_dir (name d)) (joinpath original_dir (name d)),
                  Log INFO (py ''  '' @ [10003] @ py '' Saved: '' @ stem (name d) @ py ''.txt'')]
          \<and> text_files w1' (joinpath processed_dir (stem (name d) @ py ''.txt'')) = Some []
          \<and> moved_files w1' (joinpath original_dir (name d)) = Some d
          \<and> name d \<notin> name ` set (input_files w1')"
  proof -
    from one[of n_files w1 i] obtain w1' evs where
      "process_one ev input_dir original_dir processed_dir n_files w1 (i, d) = (w1', Inr ())"
      "trace w1' = trace w1
               @ [Log INFO (py ''['' @ str_nat i @ py ''/'' @ str_nat n_files @ py ''] Processing: '' @ name d),
                  PdfOpen (name d)]
               @ evs
               @ [Log ERROR (py ''Error processing '' @ name d @ py '': '' @ e),
                  WriteText (joinpath processed_dir (stem (name d) @ py ''.txt'')) [],
                  Move (joinpath input_dir (name d)) (joinpath original_dir (name d)),
                  Log INFO (py ''  '' @ [10003] @ py '' Saved: '' @ stem (name d) @ py ''.txt'')]"
      "text_files w1' (joinpath processed_dir (stem (name d) @ py ''.txt'')) = Some []"
      "moved_files w1' (joinpath original_dir (name d)) = Some d"
      "input_files w1' = filter (\<lambda>g. name g \<noteq> name d) (input_files w1)"
      by blast
    moreover from this(5) have "name d \<notin> name ` set (input_files w1')" by auto
    ultimately show ?thesis by blast
  qed
  let ?n = "Suc (length pre + length post)"
  let ?found = "Log INFO (py ''Found '' @ str_nat ?n @ py '' PDF file(s). Starting OCR...'')"
  let ?w1 = "logger_info (py ''Found '' @ str_nat ?n @ py '' PDF file(s). Starting OCR...'') w"
  let ?ips_pre = "enumerate 1 pre"
  let ?ips_post = "enumerate (Suc (Suc (length pre))) post"
  have len: "length (glob_pdf w) = ?n" using assms(1) by simp
  have enum: "enumerate 1 (glob_pdf w) = ?ips_pre @ ((Suc (length pre), d) # ?ips_post)"
    using assms(1) by (simp add: enumerate_append_eq)
  have acc_pre: "\<forall>ip \<in> set ?ips_pre. fs_accepts ev input_dir original_dir processed_dir (snd ip)"
  proof
    fix ip assume "ip \<in> set ?ips_pre"
    then have "snd ip \<in> set pre" by (metis map_snd_enumerate image_eqI set_map)
    then show "fs_accepts ev input_dir original_dir processed_dir (snd ip)" using assms(3) by simp
  qed
  have acc_post: "\<forall>ip \<in> set ?ips_post. fs_accepts ev input_dir original_dir processed_dir (snd ip)"
  proof
    fix ip assume "ip \<in> set ?ips_post"
    then have "snd ip \<in> set post" by (metis map_snd_enumerate image_eqI set_map)
    then show "fs_accepts ev input_dir original_dir processed_dir (snd ip)" using assms(3) by simp
  qed
  obtain wa evs_pre where la: "process_loop ev input_dir original_dir processed_dir ?n ?w1 ?ips_pre = (wa, Inr ())"
    and tra: "trace wa = trace ?w1 @ evs_pre"
    using process_loop_accepted[OF acc_pre, of ?n ?w1] by blast
  obtain wb evs_d where pb: "process_one ev input_dir original_dir processed_dir ?n wa (Suc (length pre), d) = (wb, Inr ())"
    and trb: "trace wb = trace wa
               @ [Log INFO (py ''['' @ str_nat (Suc (length pre)) @ py ''/'' @ str_nat ?n @ py ''] Processing: '' @ name d),
                  PdfOpen (name d)]
               @ evs_d
               @ [Log ERROR (py ''Error processing '' @ name d @ py '': '' @ e),
                  WriteText (joinpath processed_dir (stem (name d) @ py ''.txt'')) [],
                  Move (joinpath input_dir (name d)) (joinpath original_dir (name d)),
                  Log INFO (py ''  '' @ [10003] @ py '' Saved: '' @ stem (name d) @ py ''.txt'')]"
    and ifb: "input_files wb = filter (\<lambda>g. name g \<noteq> name d) (input_files wa)"
    using one[of ?n wa "Suc (length pre)"] by blast
  obtain w' evs_post where lc: "process_loop ev input_dir original_dir processed_dir ?n wb ?ips_post = (w', Inr ())"
    and trc: "trace w' = trace wb @ evs_post"
    and inc: "\<forall>ip \<in> set ?ips_post.
            PdfOpen (name (snd ip)) \<in> set evs_post
            \<and> (\<exists>tx. WriteText (joinpath processed_dir (stem (name (snd ip)) @ py ''.txt'')) tx \<in> set evs_post)
            \<and> Move (joinpath input_dir (name (snd ip))) (joinpath original_dir (name (snd ip))) \<in> set evs_post"
    and ifc: "set (input_files w') = {g \<in> set (input_files wb). name g \<notin> name ` snd ` set ?ips_post}"
    using process_loop_accepted[OF acc_post, of ?n wb] by blast
  have loop: "process_loop ev input_dir original_dir processed_dir ?n ?w1 (enumerate 1 (glob_pdf w)) = (w', Inr ())"
    using enum la pb lc by (simp add: process_loop_append)
  have c1: "process_pdfs ev input_dir original_dir processed_dir w = (w', Inr ?n)"
    using loop len by (simp add: process_pdfs_def Let_def)
  have c2: "trace w' = trace w @ [?found] @ evs_pre
               @ [Log INFO (py ''['' @ str_nat (Suc (length pre)) @ py ''/'' @ str_nat ?n @ py ''] Processing: '' @ name d),
                  PdfOpen (name d)]
               @ evs_d
               @ [Log ERROR (py ''Error processing '' @ name d @ py '': '' @ e),
                  WriteText (joinpath processed_dir (stem (name d) @ py ''.txt'')) [],
                  Move (joinpath input_dir (name d)) (joinpath original_dir (name d)),
                  Log INFO (py ''  '' @ [10003] @ py '' Saved: '' @ stem (name d) @ py ''.txt'')]
               @ evs_post"
    using tra trb trc by (simp add: log_defs)
  have c3: "\<forall>f \<in> set post.
                PdfOpen (name f) \<in> set evs_post
                \<and> (\<exists>tx. WriteText (joinpath processed_dir (stem (name f) @ py ''.txt'')) tx \<in> set evs_post)
                \<and> Move (joinpath input_dir (name f)) (joinpath original_dir (name f)) \<in> set evs_post"
  proof
    fix f assume "f \<in> set post"
    then have "f \<in> snd ` set ?ips_post" by (metis map_snd_enumerate set_map)
    then obtain ip where "ip \<in> set ?ips_post" "f = snd ip" by auto
    then show "PdfOpen (name f) \<in> set evs_post
                \<and> (\<exists>tx. WriteText (joinpath processed_dir (stem (name f) @ py ''.txt'')) tx \<in> set evs_post)
                \<and> Move (joinpath input_dir (name f)) (joinpath original_dir (name f)) \<in> set evs_post"
      using inc by blast
  qed
  have c4: "name d \<notin> name ` set (input_files w')" using ifb ifc by auto
  have c: "\<exists>w' evs_pre evs_d evs_post.
          process_pdfs ev input_dir original_dir processed_dir w
            = (w', Inr (Suc (length pre + length post)))
          \<and> trace w' = trace w
               @ [Log INFO (py ''Found '' @ str_nat (Suc (length pre + length post))
                            @ py '' PDF file(s). Starting OCR...'')]
               @ evs_pre
               @ [Log INFO (py ''['' @ str_nat (Suc (length pre)) @ py ''/''
                            @ str_nat (Suc (length pre + length post)) @ py ''] Processing: '' @ name d),
                  PdfOpen (name d)]
               @ evs_d
               @ [Log ERROR (py ''Error processing '' @ name d @ py '': '' @ e),
                  WriteText (joinpath processed_dir (stem (name d) @ py ''.txt'')) [],
                  Move (joinpath input_dir (name d)) (joinpath original_dir (name d)),
                  Log INFO (py ''  '' @ [10003] @ py '' Saved: '' @ stem (name d) @ py ''.txt'')]
               @ evs_post
          \<and> (\<forall>f \<in> set post.
                PdfOpen (name f) \<in> set evs_post
                \<and> (\<exists>tx. WriteText (joinpath processed_dir (stem (name f) @ py ''.txt'')) tx \<in> set evs_post)
                \<and> Move (joinpath input_dir (name f)) (joinpath original_dir (name f)) \<in> set evs_post)
          \<and> name d \<notin> name ` set (input_files w')"
    using c1 c2 c3 c4 by blast
  show ?thesis using a b c by blast
qed

text \<open>
  C5 at a batch of two: a file that is not a PDF, then a three-page document, with the
  whole trace of the batch.
\<close>

theorem C5_witness:
  "glob_pdf ex_world = [] @ ex_doc_corrupt # [ex_doc]
   \<and> document_failure ex_doc_corrupt = Some (py ''not a PDF'')
   \<and> fs_accepts ex_env [py ''input''] ex_original_dir ex_processed_dir ex_doc_corrupt
   \<and> fs_accepts ex_env [py ''input''] ex_original_dir ex_processed_dir ex_doc
   \<and> snd (extract_text_from_pdf ex_env ex_doc_corrupt ex_world) = []
   \<and> snd (process_pdfs ex_env [py ''input''] ex_original_dir ex_processed_dir ex_world) = Inr 2
   \<and> trace (fst (process_pdfs ex_env [py ''input''] ex_original_dir ex_processed_dir ex_world))
       = [Log INFO (py ''Found 2 PDF file(s). Starting OCR...''),
          Log INFO (py ''[1/2] Processing: b.pdf''),
          PdfOpen (py ''b.pdf''),
          Log ERROR (py ''Error processing b.pdf: not a PDF''),
          WriteText [py ''output'', py ''20240101_120000'', py ''processed'', py ''b.txt''] [],
          Move [py ''input'', py ''b.pdf''] [py ''output'', py ''20240101_120000'', py ''original'', py ''b.pdf''],
          Log INFO ([32, 32, 10003] @ py '' Saved: b.txt''),
          Log INFO (py ''[2/2] Processing: a.pdf''),
          PdfOpen (py ''a.pdf''),
          ExtractText 1,
          ExtractText 2, ToImage 2, ReadText 2,
          ExtractText 3, ToImage 3, ReadText 3, Log WARNING (py ''No text found on page 3''),
          WriteText [py ''output'', py ''20240101_120000'', py ''processed'', py ''a.txt'']
            (py ''--- Page 1 ---'' @ [10] @ py ''Hello'' @ [10] @ py ''--- Page 2 (OCR) ---'' @ [10]
             @ py ''scanned'' @ [10] @ py ''text''),
          Move [py ''input'', py ''a.pdf''] [py ''output'', py ''20240101_120000'', py ''original'', py ''a.pdf''],
          Log INFO ([32, 32, 10003] @ py '' Saved: a.txt'')]
   \<and> map name (input_files (fst (process_pdfs ex_env [py ''input''] ex_original_dir ex_processed_dir ex_world)))
       = [py ''notes.txt'']"
proof -
  have h1: "glob_pdf ex_world = [] @ ex_doc_corrupt # [ex_doc]"
    by (simp add: glob_pdf_def endswith_def ex_world_def ex_doc_def ex_doc_corrupt_def ex_notes_def py_def)
  have h2: "document_failure ex_doc_corrupt = Some (py ''not a PDF'')"
    by (simp add: document_failure_def ex_doc_corrupt_def)
  have h3: "\<forall>f \<in> set ([] @ ex_doc_corrupt # [ex_doc]).
         fs_accepts ex_env [py ''input''] ex_original_dir ex_processed_dir f"
    by (simp add: fs_accepts_def ex_env_def)
  have tr: "trace ex_world = []" by (simp add: ex_world_def)
  have v: "trace (fst (process_pdfs ex_env [py ''input''] ex_original_dir ex_processed_dir ex_world))
       = [Log INFO (py ''Found 2 PDF file(s). Starting OCR...''),
          Log INFO (py ''[1/2] Processing: b.pdf''),
          PdfOpen (py ''b.pdf''),
          Log ERROR (py ''Error processing b.pdf: not a PDF''),
          WriteText [py ''output'', py ''20240101_120000'', py ''processed'', py ''b.txt''] [],
          Move [py ''input'', py ''b.pdf''] [py ''output'', py ''20240101_120000'', py ''original'', py ''b.pdf''],
          Log INFO ([32, 32, 10003] @ py '' Saved: b.txt''),
          Log INFO (py ''[2/2] Processing: a.pdf''),
          PdfOpen (py ''a.pdf''),
          ExtractText 1,
          ExtractText 2, ToImage 2, ReadText 2,
          ExtractText 3, ToImage 3, ReadText 3, Log WARNING (py ''No text found on page 3''),
          WriteText [py ''output'', py ''20240101_120000'', py ''processed'', py ''a.txt'']
            (py ''--- Page 1 ---'' @ [10] @ py ''Hello'' @ [10] @ py ''--- Page 2 (OCR) ---'' @ [10]
             @ py ''scanned'' @ [10] @ py ''text''),
          Move [py ''input'', py ''a.pdf''] [py ''output'', py ''20240101_120000'', py ''original'', py ''a.pdf''],
          Log INFO ([32, 32, 10003] @ py '' Saved: a.txt'')]"
    by (simp add: process_pdfs_def process_one_def extract_text_from_pdf_def page_body_def
        ocr_fallback_def direct_block_def ocr_block_def Let_def log_defs glob_pdf_def endswith_def
        enumerate_eq_zip str_nat.simps stem_def joinpath_def path_name_def
        ex_world_def ex_doc_def ex_doc_corrupt_def ex_notes_def ex_env_def ex_page_direct_def
        ex_page_scan_def ex_page_blank_def ex_original_dir_def ex_processed_dir_def
        strip_def isspace_def py_def)
  have i: "map name (input_files (fst (process_pdfs ex_env [py ''input''] ex_original_dir ex_processed_dir ex_world)))
       = [py ''notes.txt'']"
    by (simp add: process_pdfs_def process_one_def extract_text_from_pdf_def page_body_def
        ocr_fallback_def Let_def log_defs glob_pdf_def endswith_def enumerate_eq_zip
        ex_world_def ex_doc_def ex_doc_corrupt_def ex_notes_def ex_env_def ex_page_direct_def
        ex_page_scan_def ex_page_blank_def strip_def isspace_def py_def)
  have x: "snd (extract_text_from_pdf ex_env ex_doc_corrupt ex_world) = []
     \<and> snd (process_pdfs ex_env [py ''input''] ex_original_dir ex_processed_dir ex_world) = Inr 2"
    using C5_document_failure_recovered[OF h1 h2 h3, of ex_world 2 ex_world 1] by auto
  have h4: "fs_accepts ex_env [py ''input''] ex_original_dir ex_processed_dir ex_doc_corrupt"
    "fs_accepts ex_env [py ''input''] ex_original_dir ex_processed_dir ex_doc"
    using h3 by simp_all
  show ?thesis using h1 h2 h4 v i x by blast
qed

text \<open>
  C6. The claim describes what \<open>check_dependencies\<close> and lines 168 to 170 are written for:
  with the OCR library missing, an error is logged and the run is aborted. The script
  does not get there. \<open>import easyocr\<close> at line 13 raises when the module is loaded, before
  \<open>main\<close> is called: the run ends with that exception, with no file processed, nothing
  touched and nothing created, but also with nothing logged, neither the error of line
  83 nor the abort notice. \<open>check_dependencies\<close> on its own, in the same environment,
  does log the error and return \<open>False\<close>.
\<close>

theorem C6_import_fails_before_main:
  "\<not> easyocr_importable ex_env_missing
   \<and> glob_pdf ex_world = [ex_doc_corrupt, ex_doc]
   \<and> snd (run_script ex_env_missing ex_world)
       = Inl [78, 111, 32, 109, 111, 100, 117, 108, 101, 32, 110, 97, 109, 101, 100, 32,
              39, 101, 97, 115, 121, 111, 99, 114, 39]
   \<and> fst (run_script ex_env_missing ex_world) = ex_world
   \<and> trace (fst (run_script ex_env_missing ex_world)) = []
   \<and> snd (check_dependencies ex_env_missing ex_world) = False
   \<and> trace (fst (check_dependencies ex_env_missing ex_world))
       = [Log ERROR ([10060] @ py '' EasyOCR not found. Install with: uv sync'')]"
  by (simp add: run_script_def check_dependencies_def log_defs glob_pdf_def endswith_def
      ex_env_missing_def ex_env_def ex_world_def ex_doc_def ex_doc_corrupt_def ex_notes_def py_def)

text \<open>
  C7, as amended. When the input folder holds no PDF file, \<open>main\<close> creates no timestamp
  folder, no subfolder and no log file, and logs nothing: it makes sure the two top-level
  folders \<open>input\<close> and \<open>output\<close> exist, prints one console message and returns, with no file
  processed. It reports no count; \<open>process_pdfs\<close>, which is not called, would return 0.
\<close>

theorem C7_no_pdfs_only_console_message:
  assumes "glob_pdf w = []"
  shows "(\<exists>w'. main ev w = (w', Inr ())
          \<and> trace w' = trace w @ [Mkdir [py ''input''], Mkdir [py ''output''], Print no_pdf_message]
          \<and> set (dirs w') = set (dirs w) \<union> {[py ''input''], [py ''output'']}
          \<and> input_files w' = input_files w \<and> text_files w' = text_files w \<and> moved_files w' = moved_files w)
     \<and> snd (process_pdfs ev input_dir original_dir processed_dir w) = Inr 0"
  using assms process_pdfs_empty[OF assms, of ev input_dir original_dir processed_dir]
  by (auto simp: main_defs log_defs no_pdf_message_def)

text \<open>C7 at an input folder that holds a text file only.\<close>

theorem C7_witness:
  "glob_pdf ex_world_empty = []
   \<and> (\<exists>w'. main ex_env ex_world_empty = (w', Inr ())
         \<and> trace w' = [Mkdir [py ''input''], Mkdir [py ''output''], Print no_pdf_message]
         \<and> text_files w' = Map.empty \<and> moved_files w' = Map.empty)
   \<and> snd (process_pdfs ex_env [py ''input''] ex_original_dir ex_processed_dir ex_world_empty) = Inr 0"
proof -
  have h: "glob_pdf ex_world_empty = []"
    by (simp add: glob_pdf_def endswith_def ex_world_empty_def ex_notes_def py_def)
  have w: "trace ex_world_empty = []" "text_files ex_world_empty = Map.empty"
    "moved_files ex_world_empty = Map.empty"
    by (simp_all add: ex_world_empty_def)
  show ?thesis
    using C7_no_pdfs_only_console_message[OF h, of ex_env "[py ''input'']" ex_original_dir ex_processed_dir] h w
    by auto
qed

text \<open>
  C7 as stated fails twice: the folder \<open>output\<close> is created, and nothing reports a count
  (the trace holds the two \<open>mkdir\<close> calls and the console message only).
\<close>

theorem C7_counterexample:
  "glob_pdf ex_world_empty = []
   \<and> dirs ex_world_empty = [[py ''input'']]
   \<and> dirs (fst (main ex_env ex_world_empty)) = [[py ''input''], [py ''output'']]
   \<and> trace (fst (main ex_env ex_world_empty))
       = [Mkdir [py ''input''], Mkdir [py ''output''], Print (py ''No PDF files found in /input folder.'')]
   \<and> snd (main ex_env ex_world_empty) = Inr ()"
  by (simp add: main_defs log_defs glob_pdf_def endswith_def ex_world_empty_def ex_notes_def py_def add_dir_def)

text \<open>
  C8, as amended. For every file of the batch the stages come in the order: progress
  record, extraction, writing the text file, moving the original, success record. No
  stage undoes an earlier one: after a refused write the records of the extraction are
  there and the file system is as before, after a refused move the text file is written
  and the original is still in the input folder. The loop goes on with the next file
  after an extraction that failed, which is caught inside \<open>extract_text_from_pdf\<close>; an
  exception of the write or of the move is not caught and ends the loop there.
\<close>

theorem C8_stages_in_order_no_rollback:
  assumes "extract_text_from_pdf ev d (logger_info (processing_message i n_files (name d)) w) = (w2, text)"
    and "out = joinpath processed_dir (stem (name d) @ py ''.txt'')"
    and "src = joinpath input_dir (name d)"
    and "dst = joinpath original_dir (name d)"
  shows "(\<exists>evs. trace w2 = trace w @ [Log INFO (processing_message i n_files (name d)), PdfOpen (name d)] @ evs)
     \<and> (write_fault ev out = None \<and> move_fault ev src dst = None \<longrightarrow>
          (\<exists>w'. process_one ev input_dir original_dir processed_dir n_files w (i, d) = (w', Inr ())
             \<and> trace w' = trace w2 @ [WriteText out text, Move src dst, Log INFO (saved_message (stem (name d) @ py ''.txt''))]
             \<and> process_loop ev input_dir original_dir processed_dir n_files w ((i, d) # rest)
                 = process_loop ev input_dir original_dir processed_dir n_files w' rest))
     \<and> (\<forall>e. write_fault ev out = Some e \<longrightarrow>
          (\<exists>w'. process_one ev input_dir original_dir processed_dir n_files w (i, d) = (w', Inl e)
             \<and> trace w' = trace w2 @ [WriteText out text]
             \<and> text_files w' = text_files w \<and> input_files w' = input_files w \<and> moved_files w' = moved_files w
             \<and> process_loop ev input_dir original_dir processed_dir n_files w ((i, d) # rest) = (w', Inl e)))
     \<and> (\<forall>e. write_fault ev out = None \<and> move_fault ev src dst = Some e \<longrightarrow>
          (\<exists>w'. process_one ev input_dir original_dir processed_dir n_files w (i, d) = (w', Inl e)
             \<and> trace w' = trace w2 @ [WriteText out text, Move src dst]
             \<and> text_files w' out = Some text \<and> input_files w' = input_files w \<and> moved_files w' = moved_files w
             \<and> process_loop ev input_dir original_dir processed_dir n_files w ((i, d) # rest) = (w', Inl e)))"
proof -
  let ?w1 = "logger_info (processing_message i n_files (name d)) w"
  obtain evs where w2: "w2 = ?w1\<lparr>trace := trace ?w1 @ PdfOpen (name d) # evs\<rparr>"
    using extract_world[OF assms(1)] by auto
  have tr: "trace w2 = trace w @ [Log INFO (processing_message i n_files (name d)), PdfOpen (name d)] @ evs"
    using w2 by (simp add: log_defs)
  have fs: "text_files w2 = text_files w" "input_files w2 = input_files w" "moved_files w2 = moved_files w"
    using w2 by (simp_all add: log_defs)
  have ex: "extract_text_from_pdf ev d
              (logger_info (py ''['' @ str_nat i @ py ''/'' @ str_nat n_files @ py ''] Processing: '' @ name d) w)
            = (w2, text)"
    using assms(1) by (simp add: processing_message_def)
  have a: "\<exists>evs. trace w2 = trace w @ [Log INFO (processing_message i n_files (name d)), PdfOpen (name d)] @ evs"
    using tr by blast
  have b: "\<exists>w'. process_one ev input_dir original_dir processed_dir n_files w (i, d) = (w', Inr ())
             \<and> trace w' = trace w2 @ [WriteText out text, Move src dst, Log INFO (saved_message (stem (name d) @ py ''.txt''))]
             \<and> process_loop ev input_dir original_dir processed_dir n_files w ((i, d) # rest)
                 = process_loop ev input_dir original_dir processed_dir n_files w' rest"
    if "write_fault ev out = None" "move_fault ev src dst = None"
    using that ex assms(2-4)
    by (simp add: process_one_def Let_def log_defs saved_message_def)
  have c: "\<exists>w'. process_one ev input_dir original_dir processed_dir n_files w (i, d) = (w', Inl e)
             \<and> trace w' = trace w2 @ [WriteText out text]
             \<and> text_files w' = text_files w \<and> input_files w' = input_files w \<and> moved_files w' = moved_files w
             \<and> process_loop ev input_dir original_dir processed_dir n_files w ((i, d) # rest) = (w', Inl e)"
    if "write_fault ev out = Some e" for e
    using that ex assms(2-4) fs
    by (simp add: process_one_def Let_def log_defs)
  have d: "\<exists>w'. process_one ev input_dir original_dir processed_dir n_files w (i, d) = (w', Inl e)
             \<and> trace w' = trace w2 @ [WriteText out text, Move src dst]
             \<and> text_files w' out = Some text \<and> input_files w' = input_files w \<and> moved_files w' = moved_files w
             \<and> process_loop ev input_dir original_dir processed_dir n_files w ((i, d) # rest) = (w', Inl e)"
    if "write_fault ev out = None" "move_fault ev src dst = Some e" for e
    using that ex assms(2-4) fs
    by (simp add: process_one_def Let_def log_defs)
  show ?thesis using a b c d by blast
qed

text \<open>C8 at the first of two files: no refusal, a refused write, a refused move.\<close>

theorem C8_witness:
  "(\<exists>w'. process_one ex_env [py ''input''] ex_original_dir ex_processed_dir 2 ex_world (1, ex_doc_corrupt)
            = (w', Inr ())
       \<and> trace w' =
           [Log INFO (processing_message 1 2 (py ''b.pdf'')), PdfOpen (py ''b.pdf''),
            Log ERROR (error_processing_message (py ''b.pdf'') (py ''not a PDF'')),
            WriteText (joinpath ex_processed_dir (py ''b.txt'')) [],
            Move [py ''input'', py ''b.pdf''] (joinpath ex_original_dir (py ''b.pdf'')),
            Log INFO (saved_message (py ''b.txt''))])
   \<and> (\<exists>w'. process_one ex_env_readonly [py ''input''] ex_original_dir ex_processed_dir 2 ex_world (1, ex_doc_corrupt)
            = (w', Inl (py ''Permission denied''))
         \<and> text_files w' = Map.empty
         \<and> process_loop ex_env_readonly [py ''input''] ex_original_dir ex_processed_dir 2 ex_world
              [(1, ex_doc_corrupt), (2, ex_doc)] = (w', Inl (py ''Permission denied'')))
   \<and> (\<exists>w'. process_one ex_env_nomove [py ''input''] ex_original_dir ex_processed_dir 2 ex_world (1, ex_doc_corrupt)
            = (w', Inl (py ''Operation not permitted''))
         \<and> text_files w' (joinpath ex_processed_dir (py ''b.txt'')) = Some []
         \<and> input_files w' = [ex_doc_corrupt, ex_notes, ex_doc]
         \<and> process_loop ex_env_nomove [py ''input''] ex_original_dir ex_processed_dir 2 ex_world
              [(1, ex_doc_corrupt), (2, ex_doc)] = (w', Inl (py ''Operation not permitted'')))"
proof -
  let ?w2 = "ex_world\<lparr>trace := [Log INFO (processing_message 1 2 (py ''b.pdf'')), PdfOpen (py ''b.pdf''),
            Log ERROR (error_processing_message (py ''b.pdf'') (py ''not a PDF''))]\<rparr>"
  have n: "name ex_doc_corrupt = py ''b.pdf''" by (simp add: ex_doc_corrupt_def)
  have st: "stem (py ''b.pdf'') @ py ''.txt'' = py ''b.txt''" by (simp add: stem_def py_def)
  have x: "extract_text_from_pdf ev ex_doc_corrupt (logger_info (processing_message 1 2 (name ex_doc_corrupt)) ex_world)
       = (?w2, [])" for ev
    by (simp add: extract_text_from_pdf_def ex_doc_corrupt_def ex_world_def log_defs Let_def
        error_processing_message_def)
  have w: "trace ?w2 = [Log INFO (processing_message 1 2 (py ''b.pdf'')), PdfOpen (py ''b.pdf''),
            Log ERROR (error_processing_message (py ''b.pdf'') (py ''not a PDF''))]"
    "text_files ex_world = Map.empty" "input_files ex_world = [ex_doc_corrupt, ex_notes, ex_doc]"
    by (simp_all add: ex_world_def)
  have f1: "write_fault ex_env p = None" "move_fault ex_env s t = None" for p s t
    by (simp_all add: ex_env_def)
  have f2: "write_fault ex_env_readonly p = Some (py ''Permission denied'')" for p
    by (simp add: ex_env_readonly_def ex_env_def)
  have f3: "write_fault ex_env_nomove p = None"
    "move_fault ex_env_nomove s t = Some (py ''Operation not permitted'')" for p s t
    by (simp_all add: ex_env_nomove_def ex_env_def)
  have a: "\<exists>w'. process_one ex_env [py ''input''] ex_original_dir ex_processed_dir 2 ex_world (1, ex_doc_corrupt)
            = (w', Inr ())
       \<and> trace w' =
           [Log INFO (processing_message 1 2 (py ''b.pdf'')), PdfOpen (py ''b.pdf''),
            Log ERROR (error_processing_message (py ''b.pdf'') (py ''not a PDF'')),
            WriteText (joinpath ex_processed_dir (py ''b.txt'')) [],
            Move [py ''input'', py ''b.pdf''] (joinpath ex_original_dir (py ''b.pdf'')),
            Log INFO (saved_message (py ''b.txt''))]"
    using C8_stages_in_order_no_rollback[OF x refl refl refl,
        of ex_env ex_processed_dir "[py ''input'']" ex_original_dir "[(2, ex_doc)]"] n st w f1
    by (auto simp: joinpath_def)
  have b: "\<exists>w'. process_one ex_env_readonly [py ''input''] ex_original_dir ex_processed_dir 2 ex_world (1, ex_doc_corrupt)
            = (w', Inl (py ''Permission denied''))
         \<and> text_files w' = Map.empty
         \<and> process_loop ex_env_readonly [py ''input''] ex_original_dir ex_processed_dir 2 ex_world
              [(1, ex_doc_corrupt), (2, ex_doc)] = (w', Inl (py ''Permission denied''))"
    using C8_stages_in_order_no_rollback[OF x refl refl refl,
        of ex_env_readonly ex_processed_dir "[py ''input'']" ex_original_dir "[(2, ex_doc)]"] n st w f2
    by auto
  have c: "\<exists>w'. process_one ex_env_nomove [py ''input''] ex_original_dir ex_processed_dir 2 ex_world (1, ex_doc_corrupt)
            = (w', Inl (py ''Operation not permitted''))
         \<and> text_files w' (joinpath ex_processed_dir (py ''b.txt'')) = Some []
         \<and> input_files w' = [ex_doc_corrupt, ex_notes, ex_doc]
         \<and> process_loop ex_env_nomove [py ''input''] ex_original_dir ex_processed_dir 2 ex_world
              [(1, ex_doc_corrupt), (2, ex_doc)] = (w', Inl (py ''Operation not permitted''))"
    using C8_stages_in_order_no_rollback[OF x refl refl refl,
        of ex_env_nomove ex_processed_dir "[py ''input'']" ex_original_dir "[(2, ex_doc)]"] n st w f3
    by auto
  show ?thesis using a b c by blast
qed

text \<open>
  C8 as stated fails on "the loop advances regardless of any stage fault": the write of
  the first text file is refused, \<open>process_pdfs\<close> ends with that exception, and the second
  file is never opened.
\<close>

theorem C8_counterexample:
  "write_fault ex_env_readonly (joinpath ex_processed_dir (py ''b.txt'')) = Some (py ''Permission denied'')
   \<and> glob_pdf ex_world = [ex_doc_corrupt, ex_doc]
   \<and> snd (process_pdfs ex_env_readonly [py ''input''] ex_original_dir ex_processed_dir ex_world)
       = Inl (py ''Permission denied'')
   \<and> trace (fst (process_pdfs ex_env_readonly [py ''input''] ex_original_dir ex_processed_dir ex_world))
       = [Log INFO (py ''Found 2 PDF file(s). Starting OCR...''),
          Log INFO (py ''[1/2] Processing: b.pdf''),
          PdfOpen (py ''b.pdf''),
          Log ERROR (py ''Error processing b.pdf: not a PDF''),
          WriteText [py ''output'', py ''20240101_120000'', py ''processed'', py ''b.txt''] []]
   \<and> input_files (fst (process_pdfs ex_env_readonly [py ''input''] ex_original_dir ex_processed_dir ex_world))
       = [ex_doc_corrupt, ex_notes, ex_doc]"
  by (simp add: process_pdfs_def process_one_def extract_text_from_pdf_def Let_def log_defs
      glob_pdf_def endswith_def enumerate_eq_zip str_nat.simps stem_def joinpath_def
      ex_world_def ex_doc_def ex_doc_corrupt_def ex_notes_def ex_env_readonly_def ex_env_def
      ex_processed_dir_def ex_original_dir_def py_def)

lemma not_abort_simps [simp]:
  "Print m \<notin> abort_records" "Mkdir p \<notin> abort_records" "OpenLogFile p \<notin> abort_records"
  "CreateReader \<notin> abort_records" "PdfOpen nm \<notin> abort_records" "ExtractText n \<notin> abort_records"
  "ToImage n \<notin> abort_records" "ReadText n \<notin> abort_records" "WriteText p t \<notin> abort_records"
  "Move p q \<notin> abort_records" "Log WARNING m \<notin> abort_records"
  by (simp_all add: abort_records_def)

lemma ocr_fallback_quiet:
  assumes "set (trace w) \<inter> abort_records = {}"
  shows "set (trace (fst (ocr_fallback ev w ft n pg))) \<inter> abort_records = {}"
  using assms by (auto simp: ocr_fallback_def Let_def log_defs split: sum.splits)

lemma page_body_quiet:
  assumes "set (trace w) \<inter> abort_records = {}"
  shows "set (trace (fst (page_body ev w ft np))) \<inter> abort_records = {}"
proof -
  obtain n pg where np: "np = (n, pg)" by (cases np)
  have "set (trace (emit (ExtractText n) w)) \<inter> abort_records = {}"
    using assms by (simp add: emit_def)
  from ocr_fallback_quiet[OF this, of ev ft n pg] assms np show ?thesis
    by (auto simp: page_body_def Let_def emit_def split: sum.splits option.splits prod.splits)
qed

lemma pages_loop_quiet:
  assumes "set (trace w) \<inter> abort_records = {}"
  shows "set (trace (fst (pages_loop ev w ft nps))) \<inter> abort_records = {}"
  using assms
proof (induction nps arbitrary: w ft)
  case Nil
  then show ?case by simp
next
  case (Cons np rest)
  obtain w1 r where pb: "page_body ev w ft np = (w1, r)" by (cases "page_body ev w ft np")
  have q: "set (trace w1) \<inter> abort_records = {}"
    using page_body_quiet[OF Cons.prems, of ev ft np] pb by simp
  show ?case
  proof (cases r)
    case (Inl e)
    then show ?thesis using pb q by simp
  next
    case (Inr ft1)
    then show ?thesis using pb Cons.IH[OF q, of ft1] by simp
  qed
qed

lemma error_processing_not_abort: "Log ERROR (py ''Error processing '' @ nm @ py '': '' @ e) \<notin> abort_records"
  by (simp add: abort_records_def not_found_message_def py_def)

lemma extract_quiet:
  assumes "set (trace w) \<inter> abort_records = {}"
  shows "set (trace (fst (extract_text_from_pdf ev d w))) \<inter> abort_records = {}"
proof (cases "pdf_open d")
  case (Inl e)
  then show ?thesis using assms error_processing_not_abort
    by (simp add: extract_text_from_pdf_def Let_def log_defs)
next
  case (Inr pages)
  let ?w1 = "emit (PdfOpen (name d)) w"
  obtain w2 r where pl: "pages_loop ev ?w1 [] (enumerate 1 pages) = (w2, r)"
    by (cases "pages_loop ev ?w1 [] (enumerate 1 pages)")
  have "set (trace ?w1) \<inter> abort_records = {}"
    using assms by (simp add: emit_def)
  from pages_loop_quiet[OF this, of ev "[]" "enumerate 1 pages"] pl
  have q: "set (trace w2) \<inter> abort_records = {}" by simp
  show ?thesis using Inr pl q error_processing_not_abort
    by (cases r) (simp_all add: extract_text_from_pdf_def Let_def log_defs)
qed

lemma info_not_abort:
  "Log INFO (py ''['' @ x) \<notin> abort_records"
  "Log INFO (py ''  '' @ x) \<notin> abort_records"
  "Log INFO (py ''Found '' @ x) \<notin> abort_records"
  "Log INFO (py ''PDF OCR - Processing PDFs from /input folder'') \<notin> abort_records"
  "Log INFO (py ''Input folder:  '' @ x) \<notin> abort_records"
  "Log INFO (py ''Output folder: '' @ x) \<notin> abort_records"
  "Log INFO (py ''Results saved to: '' @ x) \<notin> abort_records"
  "Log INFO ([10003] @ x) \<notin> abort_records"
  by (simp_all add: abort_records_def abort_message_def py_def)

lemma process_one_quiet:
  assumes "set (trace w) \<inter> abort_records = {}"
  shows "set (trace (fst (process_one ev idir odir pdir n w ip))) \<inter> abort_records = {}"
proof -
  obtain i d where ip: "ip = (i, d)" by (cases ip)
  let ?w1 = "logger_info (py ''['' @ str_nat i @ py ''/'' @ str_nat n @ py ''] Processing: '' @ name d) w"
  obtain w2 tx where ex: "extract_text_from_pdf ev d ?w1 = (w2, tx)"
    by (cases "extract_text_from_pdf ev d ?w1")
  have "set (trace ?w1) \<inter> abort_records = {}"
    using assms info_not_abort(1) by (simp add: log_defs)
  from extract_quiet[OF this, of ev d] ex
  have q: "set (trace w2) \<inter> abort_records = {}" by simp
  show ?thesis using ip ex q info_not_abort(2)
    by (simp add: process_one_def Let_def log_defs split: option.splits)
qed

lemma process_loop_quiet:
  assumes "set (trace w) \<inter> abort_records = {}"
  shows "set (trace (fst (process_loop ev idir odir pdir n w ips))) \<inter> abort_records = {}"
  using assms
proof (induction ips arbitrary: w)
  case Nil
  then show ?case by simp
next
  case (Cons ip rest)
  obtain w1 r where po: "process_one ev idir odir pdir n w ip = (w1, r)"
    by (cases "process_one ev idir odir pdir n w ip")
  have q: "set (trace w1) \<inter> abort_records = {}"
    using process_one_quiet[OF Cons.prems, of ev idir odir pdir n ip] po by simp
  show ?case
  proof (cases r)
    case (Inl e)
    then show ?thesis using po q by simp
  next
    case (Inr u)
    then show ?thesis using po Cons.IH[OF q] by simp
  qed
qed

lemma process_pdfs_quiet:
  assumes "set (trace w) \<inter> abort_records = {}"
  shows "set (trace (fst (process_pdfs ev idir odir pdir w))) \<inter> abort_records = {}"
proof -
  let ?w1 = "logger_info (py ''Found '' @ str_nat (length (glob_pdf w)) @ py '' PDF file(s). Starting OCR...'') w"
  obtain w2 r where pl: "process_loop ev idir odir pdir (length (glob_pdf w)) ?w1 (enumerate 1 (glob_pdf w)) = (w2, r)"
    by (cases "process_loop ev idir odir pdir (length (glob_pdf w)) ?w1 (enumerate 1 (glob_pdf w))")
  have "set (trace ?w1) \<inter> abort_records = {}"
    using assms info_not_abort(3) by (simp add: log_defs)
  from process_loop_quiet[OF this, of ev idir odir pdir "length (glob_pdf w)" "enumerate 1 (glob_pdf w)"] pl
  have q: "set (trace w2) \<inter> abort_records = {}" by simp
  show ?thesis using pl q
    by (cases r) (simp_all add: process_pdfs_def Let_def)
qed

lemma main_quiet:
  assumes "easyocr_importable ev" and "set (trace w) \<inter> abort_records = {}"
  shows "set (trace (fst (main ev w))) \<inter> abort_records = {}"
proof (cases "glob_pdf w = []")
  case True
  then show ?thesis using assms(2) by (simp add: main_defs log_defs)
next
  case False
  let ?ts = "[py ''output'', now ev]"
  let ?w7 = "logger_info ([10003] @ py '' EasyOCR available (pure Python - no system dependencies needed)'')
      (logger_info (py ''Output folder: '' @ resolve ev ?ts)
      (logger_info (py ''Input folder:  '' @ resolve ev [py ''input''])
      (logger_info (py ''PDF OCR - Processing PDFs from /input folder'')
      (setup_logging ?ts
      (mkdir_parents (?ts @ [py ''processed''])
      (mkdir_parents (?ts @ [py ''original''])
      (mkdir [py ''output''] (mkdir [py ''input''] w))))))))"
  have q: "set (trace ?w7) \<inter> abort_records = {}"
    using assms(2) info_not_abort
    by (simp add: log_defs mkdir_def mkdir_parents_def setup_logging_def)
  obtain w8 r where pp: "process_pdfs ev [py ''input''] (?ts @ [py ''original'']) (?ts @ [py ''processed'']) ?w7 = (w8, r)"
    by (cases "process_pdfs ev [py ''input''] (?ts @ [py ''original'']) (?ts @ [py ''processed'']) ?w7")
  have q8: "set (trace w8) \<inter> abort_records = {}"
    using process_pdfs_quiet[OF q, of ev "[py ''input'']" "?ts @ [py ''original'']" "?ts @ [py ''processed'']"] pp
    by simp
  have m: "main ev w =
     (case r of Inl e \<Rightarrow> (w8, Inl e)
      | Inr count \<Rightarrow>
          (logger_info (py ''Results saved to: '' @ path_name ?ts @ py ''/'')
            (logger_info ([10003] @ py '' Completed! '' @ str_nat count @ py '' PDF(s) processed.'') w8), Inr ()))"
    using False assms(1) pp
    by (simp add: main_def setup_folders_def get_timestamp_folder_def check_dependencies_def
        joinpath_def parent_def Let_def mkdir_def mkdir_parents_def setup_logging_def log_defs
        split: sum.splits)
  show ?thesis using m q8 info_not_abort by (cases r) (simp_all add: log_defs)
qed

text \<open>
  C10. The script imports the OCR library and constructs the reader when the module is
  loaded, before \<open>main\<close> is called. When the import fails the script ends there with the
  exception and \<open>main\<close> does not run; when it succeeds, \<open>check_dependencies\<close> returns \<open>True\<close>.
  So no run of the script logs the error or the abort notice of lines 168 to 170.
\<close>

theorem C10_abort_branch_unreachable:
  "(\<not> easyocr_importable ev \<longrightarrow> (\<exists>e. run_script ev w = (w, Inl e)))
   \<and> (easyocr_importable ev \<longrightarrow> snd (check_dependencies ev w1) = True)
   \<and> (set (trace w) \<inter> abort_records = {} \<longrightarrow> set (trace (fst (run_script ev w))) \<inter> abort_records = {})"
proof -
  have a: "\<not> easyocr_importable ev \<longrightarrow> (\<exists>e. run_script ev w = (w, Inl e))"
    by (simp add: run_script_def)
  have b: "easyocr_importable ev \<longrightarrow> snd (check_dependencies ev w1) = True"
    by (simp add: check_dependencies_def)
  have c: "set (trace (fst (run_script ev w))) \<inter> abort_records = {}"
    if q: "set (trace w) \<inter> abort_records = {}"
  proof (cases "easyocr_importable ev")
    case False
    then show ?thesis using q by (simp add: run_script_def)
  next
    case True
    have "set (trace (emit CreateReader w)) \<inter> abort_records = {}" using q by (simp add: emit_def)
    from main_quiet[OF True this] q True show ?thesis
      by (simp add: run_script_def Let_def emit_def split: option.splits)
  qed
  show ?thesis using a b c by blast
qed

text \<open>C10 with the library present and with the library missing.\<close>

theorem C10_witness:
  "easyocr_importable ex_env
   \<and> snd (check_dependencies ex_env ex_world) = True
   \<and> set (trace ex_world) \<inter> abort_records = {}
   \<and> set (trace (fst (run_script ex_env ex_world))) \<inter> abort_records = {}
   \<and> \<not> easyocr_importable ex_env_missing
   \<and> (\<exists>e. run_script ex_env_missing ex_world = (ex_world, Inl e))"
proof -
  have h1: "easyocr_importable ex_env" by (simp add: ex_env_def)
  have h2: "set (trace ex_world) \<inter> abort_records = {}" by (simp add: ex_world_def)
  have h3: "\<not> easyocr_importable ex_env_missing" by (simp add: ex_env_missing_def ex_env_def)
  show ?thesis
    using C10_abort_branch_unreachable[of ex_env ex_world ex_world]
      C10_abort_branch_unreachable[of ex_env_missing ex_world ex_world] h1 h2 h3
    by blast
qed

end
